theory Spec2Isabelle
  imports Main "HOL-Library.Multiset" "HOL-Library.Product_Lexorder"
begin

section \<open>Constants (constants.js)\<close>

text \<open>
  \<open>COLORS\<close> and \<open>GAME_STATUS\<close> are closed sets of string tags in the source; they are
  enumerations here. The six subclasses of \<open>Piece\<close> are the six values of \<open>kind\<close>.
\<close>

datatype color = White | Black

datatype kind = Pawn | Knight | Bishop | Rook | Queen | King

datatype game_status =
    ACTIVE | CHECK | CHECKMATE_WHITE | CHECKMATE_BLACK
  | DRAW_STALEMATE | DRAW_INSUFFICIENT | DRAW_REPETITION | DRAW_FIFTY_MOVE

definition FILES :: "char list" where
  "FILES = ''abcdefgh''"

definition RANKS :: "char list" where
  "RANKS = ''12345678''"

section \<open>Position (position.js)\<close>

text \<open>
  A square is a pair of numbers; the source never rejects a row or column outside the board
  when a \<open>Position\<close> is built, so both are unbounded integers and \<open>isValid\<close> is a test.
\<close>

datatype position = Position (row: int) (col: int)

definition isValid :: "position \<Rightarrow> bool" where
  "isValid p = (row p \<ge> 0 \<and> row p < 8 \<and> col p \<ge> 0 \<and> col p < 8)"

text \<open>
  \<open>FILES[c]\<close> and \<open>RANKS[7 - r]\<close>: an index outside the array reads \<open>undefined\<close>. The sum
  of two \<open>undefined\<close> is the number \<open>NaN\<close>, and \<open>undefined\<close> next to a string is the
  text \<open>undefined\<close>; every use of the result in the engine is a string context, where
  \<open>NaN\<close> reads \<open>NaN\<close>.
\<close>

definition arrayAt :: "char list \<Rightarrow> int \<Rightarrow> char option" where
  "arrayAt xs i = (if 0 \<le> i \<and> i < int (length xs) then Some (xs ! nat i) else None)"

definition toAlgebraic :: "position \<Rightarrow> string" where
  "toAlgebraic p =
     (case (arrayAt FILES (col p), arrayAt RANKS (7 - row p)) of
        (Some f, Some r) \<Rightarrow> [f, r]
      | (Some f, None) \<Rightarrow> f # ''undefined''
      | (None, Some r) \<Rightarrow> ''undefined'' @ [r]
      | (None, None) \<Rightarrow> ''NaN'')"

text \<open>\<open>toLowerCase\<close> on the one character that \<open>fromAlgebraic\<close> looks up in \<open>FILES\<close>.\<close>

definition toLowerChar :: "char \<Rightarrow> char" where
  "toLowerChar c =
     (if (65::nat) \<le> of_char c \<and> (of_char c :: nat) \<le> 90
      then char_of ((of_char c :: nat) + 32) else c)"

fun indexOf :: "char list \<Rightarrow> char \<Rightarrow> int" where
  "indexOf [] c = -1"
| "indexOf (x # xs) c = (if x = c then 0 else (let i = indexOf xs c in if i < 0 then -1 else i + 1))"

text \<open>\<open>fromAlgebraic\<close> throws on a malformed text: \<open>None\<close> is the thrown error.\<close>

definition fromAlgebraic :: "string \<Rightarrow> position option" where
  "fromAlgebraic algebraic =
     (case algebraic of
        [ch0, ch1] \<Rightarrow>
          (let fileCh = toLowerChar ch0; rankCh = ch1 in
           if fileCh \<notin> set FILES \<or> rankCh \<notin> set RANKS then None
           else Some (Position (8 - (indexOf RANKS rankCh + 1)) (indexOf FILES fileCh)))
      | _ \<Rightarrow> None)"

section \<open>Pieces (pieces.js)\<close>

record piece =
  kind :: kind
  color :: color
  position :: position
  hasMoved :: bool

definition newPiece :: "kind \<Rightarrow> color \<Rightarrow> position \<Rightarrow> piece" where
  "newPiece k c p = \<lparr>kind = k, color = c, position = p, hasMoved = False\<rparr>"

record board =
  pieces :: "piece list"
  enPassantTarget :: "position option"
  capturedPieces :: "piece list"

definition symbol :: "piece \<Rightarrow> char" where
  "symbol p =
     (case kind p of
        Pawn \<Rightarrow> (if color p = White then CHR ''P'' else CHR ''p'')
      | Knight \<Rightarrow> (if color p = White then CHR ''N'' else CHR ''n'')
      | Bishop \<Rightarrow> (if color p = White then CHR ''B'' else CHR ''b'')
      | Rook \<Rightarrow> (if color p = White then CHR ''R'' else CHR ''r'')
      | Queen \<Rightarrow> (if color p = White then CHR ''Q'' else CHR ''q'')
      | King \<Rightarrow> (if color p = White then CHR ''K'' else CHR ''k''))"

definition abbreviation_of :: "piece \<Rightarrow> string" where
  "abbreviation_of p =
     (case kind p of
        Pawn \<Rightarrow> ''''
      | Knight \<Rightarrow> ''N''
      | Bishop \<Rightarrow> ''B''
      | Rook \<Rightarrow> ''R''
      | Queen \<Rightarrow> ''Q''
      | King \<Rightarrow> ''K'')"

definition moveTo :: "position \<Rightarrow> piece \<Rightarrow> piece" where
  "moveTo newPosition p = p\<lparr>position := newPosition, hasMoved := True\<rparr>"

definition pieceClone :: "piece \<Rightarrow> piece" where
  "pieceClone p = (newPiece (kind p) (color p) (position p))\<lparr>hasMoved := hasMoved p\<rparr>"

definition getPieceAt :: "board \<Rightarrow> position \<Rightarrow> piece option" where
  "getPieceAt b pos = find (\<lambda>p. row (position p) = row pos \<and> col (position p) = col pos) (pieces b)"

definition getPiecesByColor :: "board \<Rightarrow> color \<Rightarrow> piece list" where
  "getPiecesByColor b c = filter (\<lambda>p. color p = c) (pieces b)"

definition getKing :: "board \<Rightarrow> color \<Rightarrow> piece option" where
  "getKing b c = find (\<lambda>p. kind p = King \<and> color p = c) (pieces b)"

definition getEnPassantTarget :: "board \<Rightarrow> position option" where
  "getEnPassantTarget b = enPassantTarget b"

text \<open>
  The \<open>while\<close> loop of \<open>isPathClear\<close> walks from the square next to the piece towards the
  target and stops when it stands on the target. It ends only if the target lies on the
  line it walks; \<open>None\<close> is the loop that never ends. The fuel is the number of times the
  loop condition can be tested before the walk has passed the target's distance.
\<close>

fun pathLoop :: "nat \<Rightarrow> board \<Rightarrow> int \<Rightarrow> int \<Rightarrow> int \<Rightarrow> int \<Rightarrow> position \<Rightarrow> bool option" where
  "pathLoop 0 b currentRow currentCol rowStep colStep target = None"
| "pathLoop (Suc n) b currentRow currentCol rowStep colStep target =
     (if currentRow \<noteq> row target \<or> currentCol \<noteq> col target then
        (if getPieceAt b (Position currentRow currentCol) \<noteq> None then Some False
         else pathLoop n b (currentRow + rowStep) (currentCol + colStep) rowStep colStep target)
      else Some True)"

definition isPathClear :: "piece \<Rightarrow> board \<Rightarrow> position \<Rightarrow> bool option" where
  "isPathClear p b target =
     (let rowStep = sgn (row target - row (position p));
          colStep = sgn (col target - col (position p))
      in pathLoop (nat (max \<bar>row target - row (position p)\<bar> \<bar>col target - col (position p)\<bar>) + 1) b
           (row (position p) + rowStep) (col (position p) + colStep) rowStep colStep target)"

text \<open>
  The pieces call \<open>isPathClear\<close> only along a rank, a file or a diagonal, where the loop
  ends (lemma \<open>isPathClear_ends\<close> below); \<open>pathClear\<close> reads its answer there.
\<close>

definition pathClear :: "piece \<Rightarrow> board \<Rightarrow> position \<Rightarrow> bool" where
  "pathClear p b target = (case isPathClear p b target of Some r \<Rightarrow> r | None \<Rightarrow> False)"

definition canMoveTo :: "piece \<Rightarrow> board \<Rightarrow> position \<Rightarrow> bool" where
  "canMoveTo p b target =
     (case kind p of
        Pawn \<Rightarrow>
          (let rowDirection = (if color p = White then -1 else 1);
               startingRank = (if color p = White then 6 else 1);
               rowDiff = row target - row (position p);
               colDiff = col target - col (position p)
           in if colDiff = 0 \<and> rowDiff = rowDirection then getPieceAt b target = None
              else if colDiff = 0 \<and> rowDiff = 2 * rowDirection \<and> row (position p) = startingRank then
                getPieceAt b (Position (row (position p) + rowDirection) (col (position p))) = None
                \<and> getPieceAt b target = None
              else if \<bar>colDiff\<bar> = 1 \<and> rowDiff = rowDirection then
                (case getPieceAt b target of
                   Some targetPiece \<Rightarrow>
                     if color targetPiece \<noteq> color p then True
                     else (case getEnPassantTarget b of
                             Some ep \<Rightarrow> target = ep
                           | None \<Rightarrow> False)
                 | None \<Rightarrow>
                     (case getEnPassantTarget b of
                        Some ep \<Rightarrow> target = ep
                      | None \<Rightarrow> False))
              else False)
      | Knight \<Rightarrow>
          (let rowDiff = \<bar>row target - row (position p)\<bar>;
               colDiff = \<bar>col target - col (position p)\<bar>
           in (rowDiff = 2 \<and> colDiff = 1) \<or> (rowDiff = 1 \<and> colDiff = 2))
      | Bishop \<Rightarrow>
          (let rowDiff = \<bar>row target - row (position p)\<bar>;
               colDiff = \<bar>col target - col (position p)\<bar>
           in if rowDiff = colDiff then pathClear p b target else False)
      | Rook \<Rightarrow>
          (if row (position p) = row target \<or> col (position p) = col target
           then pathClear p b target else False)
      | Queen \<Rightarrow>
          (let rowDiff = \<bar>row target - row (position p)\<bar>;
               colDiff = \<bar>col target - col (position p)\<bar>
           in if rowDiff = colDiff then pathClear p b target
              else if row (position p) = row target \<or> col (position p) = col target
              then pathClear p b target
              else False)
      | King \<Rightarrow>
          (let rowDiff = \<bar>row target - row (position p)\<bar>;
               colDiff = \<bar>col target - col (position p)\<bar>
           in if rowDiff \<le> 1 \<and> colDiff \<le> 1 then True
              else if \<not> hasMoved p \<and> rowDiff = 0 \<and> colDiff = 2 then
                (let isKingside = col target > col (position p);
                     rookCol = (if isKingside then 7 else 0)
                 in case getPieceAt b (Position (row (position p)) rookCol) of
                      None \<Rightarrow> False
                    | Some rook \<Rightarrow>
                        if kind rook \<noteq> Rook \<or> color rook \<noteq> color p \<or> hasMoved rook then False
                        else (let colStart = min (col (position p)) rookCol;
                                  colEnd = max (col (position p)) rookCol
                              in list_all (\<lambda>c. getPieceAt b (Position (row (position p)) c) = None)
                                   [colStart + 1 .. colEnd - 1]))
              else False))"

definition isValidMove :: "piece \<Rightarrow> board \<Rightarrow> position \<Rightarrow> bool" where
  "isValidMove p b target =
     (if \<not> isValid target then False
      else if position p = target then False
      else (case getPieceAt b target of
              Some targetPiece \<Rightarrow>
                if color targetPiece = color p then False else canMoveTo p b target
            | None \<Rightarrow> canMoveTo p b target))"

section \<open>Board (board.js)\<close>

definition setupInitialPosition :: "board" where
  "setupInitialPosition =
     \<lparr>pieces =
        concat (map (\<lambda>c. [newPiece Pawn Black (Position 1 c), newPiece Pawn White (Position 6 c)])
                  [0, 1, 2, 3, 4, 5, 6, 7])
        @ [newPiece Rook Black (Position 0 0), newPiece Rook Black (Position 0 7),
           newPiece Rook White (Position 7 0), newPiece Rook White (Position 7 7),
           newPiece Knight Black (Position 0 1), newPiece Knight Black (Position 0 6),
           newPiece Knight White (Position 7 1), newPiece Knight White (Position 7 6),
           newPiece Bishop Black (Position 0 2), newPiece Bishop Black (Position 0 5),
           newPiece Bishop White (Position 7 2), newPiece Bishop White (Position 7 5),
           newPiece Queen Black (Position 0 3), newPiece Queen White (Position 7 3),
           newPiece King Black (Position 0 4), newPiece King White (Position 7 4)],
      enPassantTarget = None,
      capturedPieces = []\<rparr>"

text \<open>
  \<open>clone\<close> builds a board of fresh piece objects with the same fields; as a value it is
  the board itself (lemma \<open>clone_id\<close>), and what the source does to the clone leaves the
  original as it was.
\<close>

definition clone :: "board \<Rightarrow> board" where
  "clone b =
     \<lparr>pieces = map pieceClone (pieces b),
      enPassantTarget = enPassantTarget b,
      capturedPieces = capturedPieces b\<rparr>"

text \<open>
  The source removes and moves pieces by object identity: \<open>pieces.filter(p => p !== x)\<close>
  and \<open>x.moveTo(..)\<close>, where \<open>x\<close> is what \<open>getPieceAt\<close> found, the first piece of the
  array on that square. On the array these are the removal and the update of the first
  piece on a square.
\<close>

fun removeFirstAt :: "position \<Rightarrow> piece list \<Rightarrow> piece list" where
  "removeFirstAt pos [] = []"
| "removeFirstAt pos (p # ps) = (if position p = pos then ps else p # removeFirstAt pos ps)"

fun updateFirstAt :: "position \<Rightarrow> (piece \<Rightarrow> piece) \<Rightarrow> piece list \<Rightarrow> piece list" where
  "updateFirstAt pos f [] = []"
| "updateFirstAt pos f (p # ps) = (if position p = pos then f p # ps else p # updateFirstAt pos f ps)"

fun indexAt :: "position \<Rightarrow> piece list \<Rightarrow> nat option" where
  "indexAt pos [] = None"
| "indexAt pos (p # ps) = (if position p = pos then Some 0 else map_option Suc (indexAt pos ps))"

datatype move_error = NoPieceAtSource | InvalidMove | NotTurn color | WouldLeaveKingInCheck

text \<open>
  The object \<open>movePiece\<close> returns. \<open>r_piece\<close> is the moved object as it is when the call
  returns, \<open>r_pieceIndex\<close> its place in the array then (\<open>None\<close> once it is off the board):
  the array index stands for the object's identity.
\<close>

record move_result =
  r_piece :: piece
  r_pieceIndex :: "nat option"
  r_from :: position
  r_to :: position
  r_capturedPiece :: "piece option"
  r_isPromotion :: bool
  r_isCastling :: bool
  r_isEnPassant :: bool
  r_newEnPassantTarget :: "position option"
  r_promotedTo :: "piece option"
  r_rookMove :: "(piece \<times> position \<times> position) option"

text \<open>
  \<open>pieceConstructors[promotionPiece] || Queen\<close>. \<open>pieceConstructors\<close> is an object literal
  with the keys Q, R, B and N, so a property read also finds what every object inherits
  from \<open>Object.prototype\<close>: \<open>constructor\<close> is the function \<open>Object\<close>, the other
  inherited names are methods (or, for \<open>__proto__\<close>, the prototype object) that \<open>new\<close>
  refuses with a TypeError. Any other key reads \<open>undefined\<close> and falls to \<open>Queen\<close>.
\<close>

datatype constructor_lookup = PieceClass kind | ObjectClass | NotConstructible

definition objectPrototypeNames :: "string list" where
  "objectPrototypeNames =
     [''__defineGetter__'', ''__defineSetter__'', ''hasOwnProperty'', ''__lookupGetter__'',
      ''__lookupSetter__'', ''isPrototypeOf'', ''propertyIsEnumerable'', ''toString'',
      ''valueOf'', ''__proto__'', ''toLocaleString'']"

definition pieceConstructors :: "string \<Rightarrow> constructor_lookup" where
  "pieceConstructors promotionPiece =
     (if promotionPiece = ''Q'' then PieceClass Queen
      else if promotionPiece = ''R'' then PieceClass Rook
      else if promotionPiece = ''B'' then PieceClass Bishop
      else if promotionPiece = ''N'' then PieceClass Knight
      else if promotionPiece = ''constructor'' then ObjectClass
      else if promotionPiece \<in> set objectPrototypeNames then NotConstructible
      else PieceClass Queen)"

text \<open>
  What a call of \<open>movePiece\<close> can come to: a failure object, a success object, a thrown
  TypeError (\<open>new\<close> on something that is no constructor), or \<open>MoveNonPiece\<close>:
  \<open>new Object(color, square)\<close> is a String wrapper, which the source pushes into the
  array of pieces and reports as a success. Such an array is outside the type
  \<open>piece list\<close>: the board returned with \<open>MoveNonPiece\<close> holds the pieces of the array,
  and what \<open>makeMove\<close> goes on to do with it is modelled by \<open>isKingInCheckForeign\<close>.
\<close>

datatype move_outcome =
    MoveFailed move_error
  | MoveDone move_result
  | MoveThrew
  | MoveNonPiece

definition captureStep :: "board \<Rightarrow> position \<Rightarrow> piece option \<times> board" where
  "captureStep b sq =
     (case getPieceAt b sq of
        Some capturedPiece \<Rightarrow>
          (Some capturedPiece,
           b\<lparr>pieces := removeFirstAt sq (pieces b),
             capturedPieces := capturedPieces b @ [capturedPiece]\<rparr>)
      | None \<Rightarrow> (None, b))"

definition capturePositionOf :: "piece \<Rightarrow> position \<Rightarrow> position" where
  "capturePositionOf p to =
     Position (if color p = White then row to + 1 else row to - 1) (col to)"

definition enPassantStep :: "piece \<Rightarrow> position \<Rightarrow> board \<Rightarrow> piece option \<times> board" where
  "enPassantStep p to b =
     (if kind p = Pawn \<and> enPassantTarget b = Some to
      then captureStep b (capturePositionOf p to)
      else (None, b))"

definition isPromotionMove :: "piece \<Rightarrow> position \<Rightarrow> bool" where
  "isPromotionMove p to =
     (kind p = Pawn \<and> ((color p = White \<and> row to = 0) \<or> (color p = Black \<and> row to = 7)))"

definition castlingStep ::
  "piece \<Rightarrow> position \<Rightarrow> position \<Rightarrow> board \<Rightarrow> bool \<times> (piece \<times> position \<times> position) option \<times> board" where
  "castlingStep p from to b =
     (if kind p = King \<and> \<bar>col to - col from\<bar> = 2 then
        (let isKingside = col to > col from;
             rookCol = (if isKingside then 7 else 0);
             rookPosition = Position (row from) rookCol
         in case getPieceAt b rookPosition of
              Some rook \<Rightarrow>
                (let newRookCol = (if isKingside then col to - 1 else col to + 1);
                     newRookPosition = Position (row from) newRookCol
                 in (True, Some (moveTo newRookPosition rook, rookPosition, newRookPosition),
                     b\<lparr>pieces := updateFirstAt rookPosition (moveTo newRookPosition) (pieces b)\<rparr>))
            | None \<Rightarrow> (True, None, b))
      else (False, None, b))"

definition enPassantTargetStep :: "piece \<Rightarrow> position \<Rightarrow> position \<Rightarrow> position option" where
  "enPassantTargetStep p from to =
     (if kind p = Pawn \<and> \<bar>row to - row from\<bar> = 2
      then Some (Position (if color p = White then row from - 1 else row from + 1) (col from))
      else None)"

text \<open>
  \<open>movePiece\<close>, in the order of the source: the capture on the target square, the en
  passant capture, the promotion or the move itself, the rook of a castling, the new en
  passant target. The moving piece is the first piece on \<open>from\<close>; it stays so until the
  en passant step, which takes it off the board when the square it captures on is
  \<open>from\<close> itself (\<open>stillOnBoard\<close>).
\<close>

definition movePiece :: "board \<Rightarrow> position \<Rightarrow> position \<Rightarrow> string \<Rightarrow> move_outcome \<times> board" where
  "movePiece b from to promotionPiece =
     (case getPieceAt b from of
        None \<Rightarrow> (MoveFailed NoPieceAtSource, b)
      | Some p \<Rightarrow>
          if \<not> isValidMove p b to then (MoveFailed InvalidMove, b)
          else
            (let (captured1, b1) = captureStep b to;
                 (captured2, b2) = enPassantStep p to b1;
                 capturedPiece = (case captured2 of Some c \<Rightarrow> Some c | None \<Rightarrow> captured1);
                 isEnPassant = (captured2 \<noteq> None);
                 stillOnBoard = \<not> (isEnPassant \<and> capturePositionOf p to = from)
             in if isPromotionMove p to then
                  (case pieceConstructors promotionPiece of
                     NotConstructible \<Rightarrow> (MoveThrew, b2)
                   | ObjectClass \<Rightarrow>
                       (MoveNonPiece,
                        b2\<lparr>pieces := (if stillOnBoard then removeFirstAt from (pieces b2) else pieces b2),
                           enPassantTarget := None\<rparr>)
                   | PieceClass k \<Rightarrow>
                       (let created = (newPiece k (color p) to)\<lparr>hasMoved := True\<rparr>;
                            b3 = b2\<lparr>pieces :=
                                     (if stillOnBoard then removeFirstAt from (pieces b2) else pieces b2)
                                     @ [created]\<rparr>;
                            target = enPassantTargetStep p from to
                        in (MoveDone
                              \<lparr>r_piece = p, r_pieceIndex = None, r_from = from, r_to = to,
                               r_capturedPiece = capturedPiece, r_isPromotion = True,
                               r_isCastling = False, r_isEnPassant = isEnPassant,
                               r_newEnPassantTarget = target, r_promotedTo = Some created,
                               r_rookMove = None\<rparr>,
                            b3\<lparr>enPassantTarget := target\<rparr>)))
                else
                  (let b3 = b2\<lparr>pieces :=
                                 (if stillOnBoard then updateFirstAt from (moveTo to) (pieces b2)
                                  else pieces b2)\<rparr>;
                       (isCastling, rookMove, b4) = castlingStep p from to b3;
                       target = enPassantTargetStep p from to
                   in (MoveDone
                         \<lparr>r_piece = moveTo to p,
                          r_pieceIndex = (if stillOnBoard then indexAt from (pieces b2) else None),
                          r_from = from, r_to = to,
                          r_capturedPiece = capturedPiece, r_isPromotion = False,
                          r_isCastling = isCastling, r_isEnPassant = isEnPassant,
                          r_newEnPassantTarget = target, r_promotedTo = None,
                          r_rookMove = rookMove\<rparr>,
                       b4\<lparr>enPassantTarget := target\<rparr>))))"

definition opponentOf :: "color \<Rightarrow> color" where
  "opponentOf c = (if c = White then Black else White)"

definition attacks :: "piece \<Rightarrow> board \<Rightarrow> position \<Rightarrow> color \<Rightarrow> bool" where
  "attacks attacker b pos attackerColor =
     (if kind attacker = King then
        \<bar>row pos - row (position attacker)\<bar> \<le> 1 \<and> \<bar>col pos - col (position attacker)\<bar> \<le> 1
      else if kind attacker = Pawn then
        (let rowDirection = (if attackerColor = White then -1 else 1);
             attackRow = row (position attacker) + rowDirection;
             leftCol = col (position attacker) - 1;
             rightCol = col (position attacker) + 1
         in attackRow = row pos \<and> (leftCol = col pos \<or> rightCol = col pos))
      else isValidMove attacker b pos)"

definition isSquareAttacked :: "board \<Rightarrow> position \<Rightarrow> color \<Rightarrow> bool" where
  "isSquareAttacked b pos attackerColor =
     list_ex (\<lambda>attacker. attacks attacker b pos attackerColor) (getPiecesByColor b attackerColor)"

definition isKingInCheck :: "board \<Rightarrow> color \<Rightarrow> bool" where
  "isKingInCheck b kingColor =
     (case getKing b kingColor of
        None \<Rightarrow> False
      | Some king \<Rightarrow> isSquareAttacked b (position king) (opponentOf kingColor))"

definition allSquares :: "position list" where
  "allSquares = concat (map (\<lambda>r. map (\<lambda>c. Position r c) [0, 1, 2, 3, 4, 5, 6, 7]) [0, 1, 2, 3, 4, 5, 6, 7])"

definition getLegalMovesForPiece :: "board \<Rightarrow> piece \<Rightarrow> position list" where
  "getLegalMovesForPiece b p =
     filter
       (\<lambda>targetPos.
          position p \<noteq> targetPos \<and> isValidMove p b targetPos
          \<and> \<not> isKingInCheck (snd (movePiece (clone b) (position p) targetPos ''Q'')) (color p))
       allSquares"

definition hasLegalMoves :: "board \<Rightarrow> color \<Rightarrow> bool" where
  "hasLegalMoves b c = list_ex (\<lambda>p. getLegalMovesForPiece b p \<noteq> []) (getPiecesByColor b c)"

definition isCheckmate :: "board \<Rightarrow> color \<Rightarrow> bool" where
  "isCheckmate b c = (if \<not> isKingInCheck b c then False else \<not> hasLegalMoves b c)"

definition isStalemate :: "board \<Rightarrow> color \<Rightarrow> bool" where
  "isStalemate b c = (if isKingInCheck b c then False else \<not> hasLegalMoves b c)"

text \<open>The remainder \<open>%\<close> of the source takes the sign of the dividend.\<close>

definition jsRem :: "int \<Rightarrow> int \<Rightarrow> int" where
  "jsRem a n = sgn a * (\<bar>a\<bar> mod \<bar>n\<bar>)"

definition isInsufficientMaterial :: "board \<Rightarrow> bool" where
  "isInsufficientMaterial b =
     (if length (pieces b) = 2 then True
      else if length (pieces b) = 3 then
        (let bishops = length (filter (\<lambda>p. kind p = Bishop) (pieces b));
             knights = length (filter (\<lambda>p. kind p = Knight) (pieces b))
         in bishops = 1 \<or> knights = 1)
      else if length (pieces b) = 4 then
        (case filter (\<lambda>p. kind p = Bishop) (pieces b) of
           [bishop1, bishop2] \<Rightarrow>
             if color bishop1 \<noteq> color bishop2 then
               (let isOdd1 = (jsRem (row (position bishop1) + col (position bishop1)) 2 = 1);
                    isOdd2 = (jsRem (row (position bishop2) + col (position bishop2)) 2 = 1)
                in isOdd1 = isOdd2)
             else False
         | _ \<Rightarrow> False)
      else False)"

subsection \<open>Numbers and text\<close>

text \<open>
  A number appended to a string is written in decimal; \<open>NaN\<close> (here \<open>None\<close>) reads
  \<open>NaN\<close>. The counters are integers: the source only ever adds one to what \<open>parseInt\<close>
  gave, and the model leaves the rounding of numbers beyond \<open>2^53\<close> aside.
\<close>

definition digitChar :: "nat \<Rightarrow> char" where
  "digitChar d = char_of (48 + d)"

fun showNat :: "nat \<Rightarrow> string" where
  "showNat n = (if n < 10 then [digitChar n] else showNat (n div 10) @ [digitChar (n mod 10)])"

declare showNat.simps [simp del]

definition numberToString :: "int option \<Rightarrow> string" where
  "numberToString x =
     (case x of
        None \<Rightarrow> ''NaN''
      | Some i \<Rightarrow> if i < 0 then CHR ''-'' # showNat (nat (- i)) else showNat (nat i))"

definition isWhiteSpace :: "char \<Rightarrow> bool" where
  "isWhiteSpace c = (c \<in> set [CHR 0x09, CHR 0x0A, CHR 0x0B, CHR 0x0C, CHR 0x0D, CHR '' ''])"

definition isDigit :: "char \<Rightarrow> bool" where
  "isDigit c = (c \<in> set ''0123456789'')"

definition digitValue :: "char \<Rightarrow> int" where
  "digitValue c = int (of_char c) - 48"

text \<open>
  \<open>parseInt(s, 10)\<close>: white space is skipped, a sign is read, then the longest run of
  digits; with no digit the result is \<open>NaN\<close>.
\<close>

definition parseInt :: "string \<Rightarrow> int option" where
  "parseInt s =
     (let s1 = dropWhile isWhiteSpace s;
          neg = (case s1 of c # _ \<Rightarrow> c = CHR ''-'' | [] \<Rightarrow> False);
          s2 = (case s1 of c # r \<Rightarrow> if c = CHR ''-'' \<or> c = CHR ''+'' then r else s1 | [] \<Rightarrow> s1);
          ds = takeWhile isDigit s2
      in if ds = [] then None
         else Some ((if neg then -1 else 1) * foldl (\<lambda>a c. 10 * a + digitValue c) 0 ds))"

definition trim :: "string \<Rightarrow> string" where
  "trim s = rev (dropWhile isWhiteSpace (rev (dropWhile isWhiteSpace s)))"

fun splitOn :: "char \<Rightarrow> string \<Rightarrow> string list" where
  "splitOn sep [] = [[]]"
| "splitOn sep (c # cs) =
     (if c = sep then [] # splitOn sep cs
      else (case splitOn sep cs of [] \<Rightarrow> [[c]] | w # ws \<Rightarrow> (c # w) # ws))"

subsection \<open>FEN piece placement\<close>

fun toFENRow :: "board \<Rightarrow> int \<Rightarrow> int list \<Rightarrow> nat \<Rightarrow> string" where
  "toFENRow b r [] emptyCount = (if emptyCount > 0 then showNat emptyCount else [])"
| "toFENRow b r (c # cs) emptyCount =
     (case getPieceAt b (Position r c) of
        Some p \<Rightarrow> (if emptyCount > 0 then showNat emptyCount else []) @ symbol p # toFENRow b r cs 0
      | None \<Rightarrow> toFENRow b r cs (emptyCount + 1))"

definition toFEN :: "board \<Rightarrow> string" where
  "toFEN b =
     concat (map (\<lambda>r. toFENRow b r [0, 1, 2, 3, 4, 5, 6, 7] 0 @ (if r < 7 then ''/'' else []))
               [0, 1, 2, 3, 4, 5, 6, 7])"

definition kindOfChar :: "char \<Rightarrow> kind option" where
  "kindOfChar ch =
     (let l = toLowerChar ch in
      if l = CHR ''p'' then Some Pawn
      else if l = CHR ''r'' then Some Rook
      else if l = CHR ''n'' then Some Knight
      else if l = CHR ''b'' then Some Bishop
      else if l = CHR ''q'' then Some Queen
      else if l = CHR ''k'' then Some King
      else None)"

definition colorOfChar :: "char \<Rightarrow> color" where
  "colorOfChar ch = (if ch \<in> set ''PRNBQK'' then White else Black)"

text \<open>The two character classes \<open>/[1-8]/\<close> and \<open>/[prnbqkPRNBQK]/\<close>.\<close>

definition isEmptyRun :: "char \<Rightarrow> bool" where
  "isEmptyRun ch = (ch \<in> set ''12345678'')"

definition isPieceLetter :: "char \<Rightarrow> bool" where
  "isPieceLetter ch = (ch \<in> set ''prnbqkPRNBQK'')"

text \<open>
  One row of the placement: the column counter and the pieces pushed so far are carried
  along; the result says whether the row was read to its end.
\<close>

fun loadRow :: "int \<Rightarrow> string \<Rightarrow> int \<Rightarrow> piece list \<Rightarrow> bool \<times> int \<times> piece list" where
  "loadRow r [] c ps = (True, c, ps)"
| "loadRow r (ch # rest) c ps =
     (if isEmptyRun ch then loadRow r rest (c + digitValue ch) ps
      else if isPieceLetter ch then
        (case kindOfChar ch of
           Some k \<Rightarrow> loadRow r rest (c + 1) (ps @ [newPiece k (colorOfChar ch) (Position r c)])
         | None \<Rightarrow> (False, c, ps))
      else (False, c, ps))"

fun loadRows :: "int \<Rightarrow> string list \<Rightarrow> piece list \<Rightarrow> bool \<times> piece list" where
  "loadRows r [] ps = (True, ps)"
| "loadRows r (x # xs) ps =
     (case loadRow r x 0 ps of
        (ok, c, ps') \<Rightarrow>
          if \<not> ok then (False, ps')
          else if c \<noteq> 8 then (False, ps')
          else loadRows (r + 1) xs ps')"

text \<open>
  \<open>Board.loadFEN\<close> empties the board before it reads anything; the board it returns with
  \<open>False\<close> is the one the source leaves behind.
\<close>

definition loadFEN :: "board \<Rightarrow> string \<Rightarrow> bool \<times> board" where
  "loadFEN b fen =
     (let b0 = b\<lparr>pieces := [], capturedPieces := [], enPassantTarget := None\<rparr>;
          rows = splitOn CHR ''/'' fen
      in if length rows \<noteq> 8 then (False, b0)
         else (case loadRows 0 rows [] of (ok, ps) \<Rightarrow> (ok, b0\<lparr>pieces := ps\<rparr>)))"

subsection \<open>Position signature\<close>

text \<open>
  The comparator sorts by \<open>symbol.localeCompare\<close>, then row, then column. For the twelve
  piece letters the collation puts the letters in alphabetical order, lower case before
  upper case; \<open>collationRank\<close> is the place of a letter in that order.
\<close>

definition collationRank :: "char \<Rightarrow> int" where
  "collationRank c = indexOf ''bBkKnNpPqQrR'' c"

definition pieceKey :: "piece \<Rightarrow> int \<times> int \<times> int" where
  "pieceKey p = (collationRank (symbol p), row (position p), col (position p))"

definition getPositionSignature :: "board \<Rightarrow> string" where
  "getPositionSignature b =
     concat (map (\<lambda>p. symbol p # toAlgebraic (position p)) (sort_key pieceKey (pieces b)))
     @ '';ep:''
     @ (case enPassantTarget b of Some t \<Rightarrow> toAlgebraic t | None \<Rightarrow> ''-'')"

section \<open>Game (game.js)\<close>

text \<open>
  A record of the move history. \<open>m_piece\<close> and \<open>m_capturedPiece\<close> are references to
  piece objects in the source; the engine reads from them later only the class of the
  piece and whether a piece was captured.
\<close>

record move =
  m_piece :: piece
  m_from :: string
  m_to :: string
  m_capturedPiece :: "piece option"
  m_isPromotion :: bool
  m_promotedTo :: "piece option"
  m_isCastling :: bool
  m_isEnPassant :: bool
  m_notation :: string

record game =
  board :: board
  currentTurn :: color
  moveHistory :: "move list"
  positionHistory :: "string list"
  halfMoveClock :: "int option"
  fullMoveNumber :: "int option"
  gameStatus :: game_status

definition newGame :: "game" where
  "newGame =
     \<lparr>board = setupInitialPosition,
      currentTurn = White,
      moveHistory = [],
      positionHistory = [getPositionSignature setupInitialPosition],
      halfMoveClock = Some 0,
      fullMoveNumber = Some 1,
      gameStatus = ACTIVE\<rparr>"

text \<open>\<open>x++\<close> on a counter; \<open>NaN\<close> stays \<open>NaN\<close>.\<close>

definition increment :: "int option \<Rightarrow> int option" where
  "increment x = map_option (\<lambda>i. i + 1) x"

text \<open>
  \<open>pos.toAlgebraic()[i]\<close> as it is appended to the notation: a character of the text, or
  \<open>undefined\<close> when there is none (the number \<open>NaN\<close> has no characters).
\<close>

definition algebraicChar :: "position \<Rightarrow> nat \<Rightarrow> string" where
  "algebraicChar p i =
     (if arrayAt FILES (col p) = None \<and> arrayAt RANKS (7 - row p) = None then ''undefined''
      else if i < length (toAlgebraic p) then [toAlgebraic p ! i]
      else ''undefined'')"

text \<open>
  The pieces that make a move ambiguous, as the source computes them: on the board as it
  is after the move, every other piece of the same class and colour for which
  \<open>isValidMove\<close> accepts the target square.
\<close>

definition otherPiecesFor :: "game \<Rightarrow> move_result \<Rightarrow> piece list" where
  "otherPiecesFor g r =
     map snd
       (filter
          (\<lambda>(i, p). Some i \<noteq> r_pieceIndex r
                    \<and> kind p = kind (r_piece r)
                    \<and> color p = color (r_piece r)
                    \<and> isValidMove p (board g) (r_to r))
          (enumerate 0 (pieces (board g))))"

definition disambiguation :: "game \<Rightarrow> move_result \<Rightarrow> string" where
  "disambiguation g r =
     (let otherPieces = otherPiecesFor g r in
      if length otherPieces > 0 then
        (let sameFile = list_ex (\<lambda>p. col (position p) = col (r_from r)) otherPieces;
             sameRank = list_ex (\<lambda>p. row (position p) = row (r_from r)) otherPieces
         in if \<not> sameFile then algebraicChar (r_from r) 0
            else if \<not> sameRank then algebraicChar (r_from r) 1
            else toAlgebraic (r_from r))
      else [])"

definition generateMoveNotation :: "game \<Rightarrow> move_result \<Rightarrow> string" where
  "generateMoveNotation g r =
     (if r_isCastling r then (if col (r_to r) > col (r_from r) then ''O-O'' else ''O-O-O'')
      else
        (let captures = (r_capturedPiece r \<noteq> None \<or> r_isEnPassant r);
             n1 = (if kind (r_piece r) \<noteq> Pawn then abbreviation_of (r_piece r) @ disambiguation g r
                   else if captures then algebraicChar (r_from r) 0
                   else []);
             n2 = n1 @ (if captures then ''x'' else []);
             n3 = n2 @ toAlgebraic (r_to r);
             n4 = n3 @ (case r_promotedTo r of
                          Some promoted \<Rightarrow> if r_isPromotion r then CHR ''='' # abbreviation_of promoted else []
                        | None \<Rightarrow> []);
             opponentColor = opponentOf (currentTurn g)
         in if isCheckmate (board g) opponentColor then n4 @ ''#''
            else if isKingInCheck (board g) opponentColor then n4 @ ''+''
            else n4))"

definition repeatCount :: "game \<Rightarrow> nat" where
  "repeatCount g =
     length (filter (\<lambda>position. position = getPositionSignature (board g)) (positionHistory g))"

definition atLeast100 :: "int option \<Rightarrow> bool" where
  "atLeast100 x = (case x of Some i \<Rightarrow> i \<ge> 100 | None \<Rightarrow> False)"

definition updateGameStatus :: "game \<Rightarrow> game" where
  "updateGameStatus g =
     (let opponentColor = currentTurn g in
      if isCheckmate (board g) opponentColor then
        g\<lparr>gameStatus := (if opponentColor = White then CHECKMATE_BLACK else CHECKMATE_WHITE)\<rparr>
      else if isStalemate (board g) opponentColor then g\<lparr>gameStatus := DRAW_STALEMATE\<rparr>
      else if isInsufficientMaterial (board g) then g\<lparr>gameStatus := DRAW_INSUFFICIENT\<rparr>
      else if repeatCount g \<ge> 3 then g\<lparr>gameStatus := DRAW_REPETITION\<rparr>
      else if atLeast100 (halfMoveClock g) then g\<lparr>gameStatus := DRAW_FIFTY_MOVE\<rparr>
      else if isKingInCheck (board g) opponentColor then g\<lparr>gameStatus := CHECK\<rparr>
      else g\<lparr>gameStatus := ACTIVE\<rparr>)"

text \<open>
  A square given to \<open>makeMove\<close> is a \<open>Position\<close> or a text in algebraic notation; a
  malformed text makes \<open>fromAlgebraic\<close> throw.
\<close>

datatype square_arg = Square position | Algebraic string

definition resolveSquare :: "square_arg \<Rightarrow> position option" where
  "resolveSquare a = (case a of Square p \<Rightarrow> Some p | Algebraic s \<Rightarrow> fromAlgebraic s)"

datatype make_outcome =
    MakeFailed move_error
  | MakeDone move game_status
  | MakeThrew

text \<open>
  After a promotion through the inherited key \<open>constructor\<close> the array of pieces ends
  with an object that is no piece (see \<open>MoveNonPiece\<close>). That object has no colour and
  is no \<open>King\<close>, so \<open>getPiecesByColor\<close> and \<open>getKing\<close> pass over it. \<open>getPieceAt\<close>
  reads \<open>piece.position.row\<close> of one element after the other until it finds the square:
  when a piece stands on the square it is found before the object is reached, and when
  no piece stands there the look-up reaches the object and throws a TypeError. The
  functions below are \<open>isKingInCheck\<close> and what it calls, on such a board; the board
  value holds the pieces of the array, and \<open>None\<close> is the thrown error.
\<close>

definition isPathClearForeign :: "piece \<Rightarrow> board \<Rightarrow> position \<Rightarrow> bool option" where
  "isPathClearForeign p b target =
     (let rowStep = sgn (row target - row (position p));
          colStep = sgn (col target - col (position p));
          currentRow = row (position p) + rowStep;
          currentCol = col (position p) + colStep
      in if currentRow \<noteq> row target \<or> currentCol \<noteq> col target then
           (case getPieceAt b (Position currentRow currentCol) of
              Some found \<Rightarrow> Some False
            | None \<Rightarrow> None)
         else Some True)"

definition canMoveToForeign :: "piece \<Rightarrow> board \<Rightarrow> position \<Rightarrow> bool option" where
  "canMoveToForeign p b target =
     (case kind p of
        Pawn \<Rightarrow>
          (let rowDirection = (if color p = White then -1 else 1);
               startingRank = (if color p = White then 6 else 1);
               rowDiff = row target - row (position p);
               colDiff = col target - col (position p)
           in if colDiff = 0 \<and> rowDiff = rowDirection then
                (case getPieceAt b target of Some found \<Rightarrow> Some False | None \<Rightarrow> None)
              else if colDiff = 0 \<and> rowDiff = 2 * rowDirection \<and> row (position p) = startingRank then
                (case getPieceAt b (Position (row (position p) + rowDirection) (col (position p))) of
                   Some found \<Rightarrow> Some False
                 | None \<Rightarrow> None)
              else if \<bar>colDiff\<bar> = 1 \<and> rowDiff = rowDirection then
                (case getPieceAt b target of
                   Some targetPiece \<Rightarrow>
                     if color targetPiece \<noteq> color p then Some True
                     else (case getEnPassantTarget b of
                             Some ep \<Rightarrow> Some (target = ep)
                           | None \<Rightarrow> Some False)
                 | None \<Rightarrow> None)
              else Some False)
      | Knight \<Rightarrow>
          (let rowDiff = \<bar>row target - row (position p)\<bar>;
               colDiff = \<bar>col target - col (position p)\<bar>
           in Some ((rowDiff = 2 \<and> colDiff = 1) \<or> (rowDiff = 1 \<and> colDiff = 2)))
      | Bishop \<Rightarrow>
          (let rowDiff = \<bar>row target - row (position p)\<bar>;
               colDiff = \<bar>col target - col (position p)\<bar>
           in if rowDiff = colDiff then isPathClearForeign p b target else Some False)
      | Rook \<Rightarrow>
          (if row (position p) = row target \<or> col (position p) = col target
           then isPathClearForeign p b target else Some False)
      | Queen \<Rightarrow>
          (let rowDiff = \<bar>row target - row (position p)\<bar>;
               colDiff = \<bar>col target - col (position p)\<bar>
           in if rowDiff = colDiff then isPathClearForeign p b target
              else if row (position p) = row target \<or> col (position p) = col target
              then isPathClearForeign p b target
              else Some False)
      | King \<Rightarrow>
          (let rowDiff = \<bar>row target - row (position p)\<bar>;
               colDiff = \<bar>col target - col (position p)\<bar>
           in if rowDiff \<le> 1 \<and> colDiff \<le> 1 then Some True
              else if \<not> hasMoved p \<and> rowDiff = 0 \<and> colDiff = 2 then
                (let isKingside = col target > col (position p);
                     rookCol = (if isKingside then 7 else 0)
                 in case getPieceAt b (Position (row (position p)) rookCol) of
                      None \<Rightarrow> None
                    | Some rook \<Rightarrow>
                        if kind rook \<noteq> Rook \<or> color rook \<noteq> color p \<or> hasMoved rook then Some False
                        else (let colStart = min (col (position p)) rookCol;
                                  colEnd = max (col (position p)) rookCol
                              in if colStart + 1 < colEnd then
                                   (case getPieceAt b (Position (row (position p)) (colStart + 1)) of
                                      Some found \<Rightarrow> Some False
                                    | None \<Rightarrow> None)
                                 else Some True))
              else Some False))"

definition isValidMoveForeign :: "piece \<Rightarrow> board \<Rightarrow> position \<Rightarrow> bool option" where
  "isValidMoveForeign p b target =
     (if \<not> isValid target then Some False
      else if position p = target then Some False
      else (case getPieceAt b target of
              Some targetPiece \<Rightarrow>
                if color targetPiece = color p then Some False else canMoveToForeign p b target
            | None \<Rightarrow> None))"

definition attacksForeign :: "piece \<Rightarrow> board \<Rightarrow> position \<Rightarrow> color \<Rightarrow> bool option" where
  "attacksForeign attacker b pos attackerColor =
     (if kind attacker = King \<or> kind attacker = Pawn then Some (attacks attacker b pos attackerColor)
      else isValidMoveForeign attacker b pos)"

fun attackLoopForeign :: "piece list \<Rightarrow> board \<Rightarrow> position \<Rightarrow> color \<Rightarrow> bool option" where
  "attackLoopForeign [] b pos attackerColor = Some False"
| "attackLoopForeign (attacker # rest) b pos attackerColor =
     (case attacksForeign attacker b pos attackerColor of
        None \<Rightarrow> None
      | Some True \<Rightarrow> Some True
      | Some False \<Rightarrow> attackLoopForeign rest b pos attackerColor)"

definition isSquareAttackedForeign :: "board \<Rightarrow> position \<Rightarrow> color \<Rightarrow> bool option" where
  "isSquareAttackedForeign b pos attackerColor =
     attackLoopForeign (getPiecesByColor b attackerColor) b pos attackerColor"

definition isKingInCheckForeign :: "board \<Rightarrow> color \<Rightarrow> bool option" where
  "isKingInCheckForeign b kingColor =
     (case getKing b kingColor of
        None \<Rightarrow> Some False
      | Some king \<Rightarrow> isSquareAttackedForeign b (position king) (opponentOf kingColor))"

text \<open>
  The bookkeeping of \<open>makeMove\<close> once the move has been executed on the live board.
\<close>

definition commitMove :: "game \<Rightarrow> piece \<Rightarrow> position \<Rightarrow> position \<Rightarrow> move_result \<Rightarrow> board \<Rightarrow> make_outcome \<times> game" where
  "commitMove g p fromPos toPos result b' =
     (let g1 = g\<lparr>board := b',
                 halfMoveClock := (if kind p = Pawn \<or> r_capturedPiece result \<noteq> None then Some 0
                                   else increment (halfMoveClock g))\<rparr>;
          g2 = g1\<lparr>positionHistory := positionHistory g1 @ [getPositionSignature (board g1)]\<rparr>;
          mv = \<lparr>m_piece = r_piece result,
                m_from = toAlgebraic fromPos,
                m_to = toAlgebraic toPos,
                m_capturedPiece = r_capturedPiece result,
                m_isPromotion = r_isPromotion result,
                m_promotedTo = r_promotedTo result,
                m_isCastling = r_isCastling result,
                m_isEnPassant = r_isEnPassant result,
                m_notation = generateMoveNotation g2 result\<rparr>;
          g3 = g2\<lparr>moveHistory := moveHistory g2 @ [mv]\<rparr>;
          g4 = (if currentTurn g3 = Black then g3\<lparr>fullMoveNumber := increment (fullMoveNumber g3)\<rparr> else g3);
          g5 = g4\<lparr>currentTurn := (if currentTurn g4 = White then Black else White)\<rparr>;
          g6 = updateGameStatus g5
      in (MakeDone mv (gameStatus g6), g6))"

text \<open>
  \<open>makeMove\<close>. The omitted \<open>promotionPiece\<close> is the text \<open>Q\<close>; \<open>null\<close>, which the
  callers in the user interface pass, is the property key \<open>null\<close>. The second call of
  \<open>movePiece\<close>, on the live board, gets the arguments of the first, whose success the
  source has checked on the clone; it has the outcome of the first (lemma \<open>clone_id\<close>),
  and the source does not test it.

  When the call on the clone is a promotion through the key \<open>constructor\<close>, it reports
  success as well. The source then tests the king on the clone, which returns or throws
  (\<open>isKingInCheckForeign\<close>); when it returns false, the move is executed on the live
  board, the half-move clock is set for the pawn that moved, and \<open>getPositionSignature\<close>
  throws a TypeError at the object that has no \<open>position\<close>: the call ends in an error
  with the board and the clock already written.
\<close>

definition makeMove :: "game \<Rightarrow> square_arg \<Rightarrow> square_arg \<Rightarrow> string \<Rightarrow> make_outcome \<times> game" where
  "makeMove g from to promotionPiece =
     (case resolveSquare from of
        None \<Rightarrow> (MakeThrew, g)
      | Some fromPos \<Rightarrow>
     (case resolveSquare to of
        None \<Rightarrow> (MakeThrew, g)
      | Some toPos \<Rightarrow>
     (case getPieceAt (board g) fromPos of
        None \<Rightarrow> (MakeFailed (NotTurn (currentTurn g)), g)
      | Some p \<Rightarrow>
          if color p \<noteq> currentTurn g then (MakeFailed (NotTurn (currentTurn g)), g)
          else
            (case movePiece (clone (board g)) fromPos toPos promotionPiece of
               (MoveFailed e, tempBoard) \<Rightarrow> (MakeFailed e, g)
             | (MoveThrew, tempBoard) \<Rightarrow> (MakeThrew, g)
             | (MoveNonPiece, tempBoard) \<Rightarrow>
                 (case isKingInCheckForeign tempBoard (currentTurn g) of
                    None \<Rightarrow> (MakeThrew, g)
                  | Some True \<Rightarrow> (MakeFailed WouldLeaveKingInCheck, g)
                  | Some False \<Rightarrow>
                      (MakeThrew,
                       g\<lparr>board := snd (movePiece (board g) fromPos toPos promotionPiece),
                         halfMoveClock := (if kind p = Pawn then Some 0
                                           else increment (halfMoveClock g))\<rparr>))
             | (MoveDone moveResult, tempBoard) \<Rightarrow>
                 if isKingInCheck tempBoard (currentTurn g) then (MakeFailed WouldLeaveKingInCheck, g)
                 else
                   (case movePiece (board g) fromPos toPos promotionPiece of
                      (MoveDone result, b') \<Rightarrow> commitMove g p fromPos toPos result b'
                    | (MoveFailed e, b') \<Rightarrow> (MakeThrew, g\<lparr>board := b'\<rparr>)
                    | (MoveThrew, b') \<Rightarrow> (MakeThrew, g\<lparr>board := b'\<rparr>)
                    | (MoveNonPiece, b') \<Rightarrow> (MakeThrew, g\<lparr>board := b'\<rparr>))))))"

subsection \<open>Full FEN\<close>

definition findRook :: "board \<Rightarrow> color \<Rightarrow> int \<Rightarrow> piece option" where
  "findRook b c column =
     (case getPieceAt b (Position (if c = White then 7 else 0) column) of
        Some p \<Rightarrow> if kind p = Rook \<and> color p = c then Some p else None
      | None \<Rightarrow> None)"

definition castlingRight :: "board \<Rightarrow> color \<Rightarrow> int \<Rightarrow> bool" where
  "castlingRight b c column =
     (case getKing b c of
        None \<Rightarrow> False
      | Some king \<Rightarrow>
          \<not> hasMoved king
          \<and> (case findRook b c column of Some rook \<Rightarrow> \<not> hasMoved rook | None \<Rightarrow> False))"

definition castlingField :: "board \<Rightarrow> string" where
  "castlingField b =
     (let castling =
            (if castlingRight b White 7 then ''K'' else [])
          @ (if castlingRight b White 0 then ''Q'' else [])
          @ (if castlingRight b Black 7 then ''k'' else [])
          @ (if castlingRight b Black 0 then ''q'' else [])
      in if castling = [] then ''-'' else castling)"

definition getFEN :: "game \<Rightarrow> string" where
  "getFEN g =
     toFEN (board g)
     @ '' '' @ (if currentTurn g = White then ''w'' else ''b'')
     @ '' '' @ castlingField (board g)
     @ '' '' @ (case getEnPassantTarget (board g) of Some t \<Rightarrow> toAlgebraic t | None \<Rightarrow> ''-'')
     @ '' '' @ numberToString (halfMoveClock g)
     @ '' '' @ numberToString (fullMoveNumber g)"

text \<open>
  The castling field of \<open>Game.loadFEN\<close>: every king and rook is marked as moved, then the
  flag is cleared on the first king of a colour and on the rooks in the corners that the
  field names.
\<close>

fun updateFirstWhere :: "(piece \<Rightarrow> bool) \<Rightarrow> (piece \<Rightarrow> piece) \<Rightarrow> piece list \<Rightarrow> piece list" where
  "updateFirstWhere P f [] = []"
| "updateFirstWhere P f (p # ps) = (if P p then f p # ps else p # updateFirstWhere P f ps)"

definition clearKingMoved :: "color \<Rightarrow> board \<Rightarrow> board" where
  "clearKingMoved c b =
     b\<lparr>pieces := updateFirstWhere (\<lambda>p. kind p = King \<and> color p = c) (\<lambda>p. p\<lparr>hasMoved := False\<rparr>) (pieces b)\<rparr>"

definition clearRookMoved :: "color \<Rightarrow> int \<Rightarrow> board \<Rightarrow> board" where
  "clearRookMoved c column b =
     (case findRook b c column of
        Some rook \<Rightarrow>
          b\<lparr>pieces := updateFirstAt (Position (if c = White then 7 else 0) column)
                         (\<lambda>p. p\<lparr>hasMoved := False\<rparr>) (pieces b)\<rparr>
      | None \<Rightarrow> b)"

definition applyCastlingField :: "string \<Rightarrow> board \<Rightarrow> board" where
  "applyCastlingField castling b =
     (let b1 = b\<lparr>pieces := map (\<lambda>p. if kind p = King \<or> kind p = Rook then p\<lparr>hasMoved := True\<rparr> else p)
                             (pieces b)\<rparr>
      in if castling \<noteq> ''-'' then
           (let b2 = (if CHR ''K'' \<in> set castling \<or> CHR ''Q'' \<in> set castling
                      then clearKingMoved White b1 else b1);
                b3 = (if CHR ''k'' \<in> set castling \<or> CHR ''q'' \<in> set castling
                      then clearKingMoved Black b2 else b2);
                b4 = (if CHR ''K'' \<in> set castling then clearRookMoved White 7 b3 else b3);
                b5 = (if CHR ''Q'' \<in> set castling then clearRookMoved White 0 b4 else b4);
                b6 = (if CHR ''k'' \<in> set castling then clearRookMoved Black 7 b5 else b5);
                b7 = (if CHR ''q'' \<in> set castling then clearRookMoved Black 0 b6 else b6)
            in b7)
         else b1)"

text \<open>
  \<open>Game.loadFEN\<close> writes into the game as it reads the fields; every \<open>return false\<close>
  leaves what has been written until then.
\<close>

definition gameLoadFEN :: "game \<Rightarrow> string \<Rightarrow> bool \<times> game" where
  "gameLoadFEN g fen =
     (case splitOn CHR '' '' (trim fen) of
        [p0, p1, p2, p3, p4, p5] \<Rightarrow>
          (case loadFEN (board g) p0 of
             (False, b0) \<Rightarrow> (False, g\<lparr>board := b0\<rparr>)
           | (True, b0) \<Rightarrow>
               (let g1 = g\<lparr>board := applyCastlingField p2 b0,
                           currentTurn := (if p1 = ''w'' then White else Black)\<rparr>
                in if p3 \<noteq> ''-'' \<and> fromAlgebraic p3 = None then (False, g1)
                   else
                     (let g2 = g1\<lparr>board := (board g1)\<lparr>enPassantTarget :=
                                                (if p3 \<noteq> ''-'' then fromAlgebraic p3 else None)\<rparr>\<rparr>;
                          g3 = g2\<lparr>halfMoveClock := parseInt p4\<rparr>
                      in if halfMoveClock g3 = None then (False, g3)
                         else
                           (let g4 = g3\<lparr>fullMoveNumber := parseInt p5\<rparr>
                            in if fullMoveNumber g4 = None then (False, g4)
                               else
                                 (True,
                                  updateGameStatus
                                    (g4\<lparr>moveHistory := [],
                                        positionHistory := [getPositionSignature (board g4)]\<rparr>))))))
      | _ \<Rightarrow> (False, g))"

subsection \<open>Undo\<close>

text \<open>
  The replay loop of \<open>undoLastMove\<close> over the remaining moves: the temporary board, the
  turn and the two counters. \<open>None\<close> is a thrown error (\<open>fromAlgebraic\<close> on a recorded
  square, or \<open>movePiece\<close>); what \<open>movePiece\<close> returns is not looked at.
\<close>

definition replayPromotion :: "move \<Rightarrow> string" where
  "replayPromotion m =
     (case m_promotedTo m of
        Some promoted \<Rightarrow> if m_isPromotion m then abbreviation_of promoted else ''null''
      | None \<Rightarrow> ''null'')"

fun replayMoves ::
  "move list \<Rightarrow> board \<times> color \<times> int option \<times> int option
     \<Rightarrow> bool \<times> board \<times> color \<times> int option \<times> int option" where
  "replayMoves [] st = (True, st)"
| "replayMoves (m # ms) (tempBoard, turn, half, full) =
     (case fromAlgebraic (m_from m) of
        None \<Rightarrow> (False, tempBoard, turn, half, full)
      | Some fromPos \<Rightarrow>
     (case fromAlgebraic (m_to m) of
        None \<Rightarrow> (False, tempBoard, turn, half, full)
      | Some toPos \<Rightarrow>
     (case movePiece tempBoard fromPos toPos (replayPromotion m) of
        (MoveThrew, tempBoard') \<Rightarrow> (False, tempBoard', turn, half, full)
      | (MoveNonPiece, tempBoard') \<Rightarrow> (False, tempBoard', turn, half, full)
      | (_, tempBoard') \<Rightarrow>
          (let turn' = (if turn = White then Black else White);
               half' = (if kind (m_piece m) = Pawn \<or> m_capturedPiece m \<noteq> None then Some 0
                        else increment half);
               full' = (if turn' = White then increment full else full)
           in replayMoves ms (tempBoard', turn', half', full')))))"

datatype undo_outcome = UndoFalse | UndoTrue | UndoThrew

definition undoLastMove :: "game \<Rightarrow> undo_outcome \<times> game" where
  "undoLastMove g =
     (if length (moveHistory g) = 0 then (UndoFalse, g)
      else
        (let g1 = g\<lparr>moveHistory := butlast (moveHistory g),
                    positionHistory := butlast (positionHistory g)\<rparr>
         in case replayMoves (moveHistory g1) (setupInitialPosition, White, Some 0, Some 1) of
              (False, tempBoard, turn, half, full) \<Rightarrow>
                (UndoThrew, g1\<lparr>currentTurn := turn, halfMoveClock := half, fullMoveNumber := full\<rparr>)
            | (True, tempBoard, turn, half, full) \<Rightarrow>
                (UndoTrue,
                 updateGameStatus
                   (g1\<lparr>board := tempBoard, currentTurn := turn,
                       halfMoveClock := half, fullMoveNumber := full\<rparr>))))"

section \<open>Properties of the model\<close>

text \<open>
  When the target is on the rank, the file or a diagonal of the piece, the loop of
  \<open>isPathClear\<close> ends.
\<close>

definition aligned :: "position \<Rightarrow> position \<Rightarrow> bool" where
  "aligned a t = (row a = row t \<or> col a = col t \<or> \<bar>row t - row a\<bar> = \<bar>col t - col a\<bar>)"

text \<open>Readers of an outcome, for statements about what a call returned.\<close>

definition isMoveDone :: "move_outcome \<Rightarrow> bool" where
  "isMoveDone out = (case out of MoveDone _ \<Rightarrow> True | _ \<Rightarrow> False)"

definition isMakeDone :: "make_outcome \<Rightarrow> bool" where
  "isMakeDone out = (case out of MakeDone _ _ \<Rightarrow> True | _ \<Rightarrow> False)"

definition notationOf :: "make_outcome \<Rightarrow> string option" where
  "notationOf out = (case out of MakeDone mv _ \<Rightarrow> Some (m_notation mv) | _ \<Rightarrow> None)"

text \<open>
  Small positions on which the functions are run. \<open>gameOn\<close> is a game at its first move
  on a given set of pieces.
\<close>

definition mkPiece :: "kind \<Rightarrow> color \<Rightarrow> int \<Rightarrow> int \<Rightarrow> bool \<Rightarrow> piece" where
  "mkPiece k c r f m = \<lparr>kind = k, color = c, position = Position r f, hasMoved = m\<rparr>"

definition gameOn :: "piece list \<Rightarrow> color \<Rightarrow> game" where
  "gameOn ps t =
     (let b = \<lparr>pieces = ps, enPassantTarget = None, capturedPieces = []\<rparr> in
      \<lparr>board = b, currentTurn = t, moveHistory = [], positionHistory = [getPositionSignature b],
       halfMoveClock = Some 0, fullMoveNumber = Some 1, gameStatus = ACTIVE\<rparr>)"

text \<open>White: Ke1, Re2. Black: Re8, Ka8. The white rook is pinned on the e-file.\<close>

definition pinnedRookGame :: game where
  "pinnedRookGame = gameOn [mkPiece King White 7 4 True, mkPiece Rook White 6 4 True,
                            mkPiece Rook Black 0 4 True, mkPiece King Black 0 0 True] White"

text \<open>White: Ke1 and Rh1, neither has moved. Black: Rf8, Ka8. The black rook attacks f1.\<close>

definition castlingGame :: game where
  "castlingGame = gameOn [mkPiece King White 7 4 False, mkPiece Rook White 7 7 False,
                          mkPiece Rook Black 0 5 True, mkPiece King Black 0 0 True] White"

text \<open>White: Ke1, Nb1, Nf3. Black: Ke8. Both knights can go to d2.\<close>

definition twoKnightsGame :: game where
  "twoKnightsGame = gameOn [mkPiece King White 7 4 True, mkPiece Knight White 7 1 False,
                            mkPiece Knight White 5 5 True, mkPiece King Black 0 4 True] White"

text \<open>White: Ke1, pawn a7. Black: Ke8. The pawn promotes on a8.\<close>

definition promotionBoard :: board where
  "promotionBoard =
     \<lparr>pieces = [mkPiece King White 7 4 True, mkPiece Pawn White 1 0 True, mkPiece King Black 0 4 True],
      enPassantTarget = None, capturedPieces = []\<rparr>"

text \<open>
  The invariant of the board: no two pieces on one square; and the bound on the squares of
  the pieces. \<open>placedBefore\<close> is the invariant of the loop that reads a placement: the
  pieces pushed so far stand before the square being read.
\<close>

definition distinctCoords :: "piece list \<Rightarrow> bool" where
  "distinctCoords ps = distinct (map position ps)"

definition allValid :: "piece list \<Rightarrow> bool" where
  "allValid ps = (\<forall>p \<in> set ps. isValid (position p))"

definition placedBefore :: "int \<Rightarrow> int \<Rightarrow> piece list \<Rightarrow> bool" where
  "placedBefore r c ps =
     (\<forall>p \<in> set ps. row (position p) < r \<or> (row (position p) = r \<and> col (position p) < c))"

text \<open>
  A game played from a given game by a list of move requests, each of which must succeed;
  the promotion text that \<open>undoLastMove\<close> reads back from a result; and what holds of
  every game played from the start: the pieces are on the board, no two on one square, the
  en passant target is on the board, the clocks are numbers, and replaying the move history
  from the initial setup gives the board, the turn and the clocks of the game.
\<close>

fun playMoves :: "game \<Rightarrow> (square_arg \<times> square_arg \<times> string) list \<Rightarrow> game option" where
  "playMoves g [] = Some g"
| "playMoves g ((from, to, promotionPiece) # ms) =
     (case makeMove g from to promotionPiece of
        (MakeDone mv st, g') \<Rightarrow> playMoves g' ms
      | _ \<Rightarrow> None)"

definition promotionOfResult :: "move_result \<Rightarrow> string" where
  "promotionOfResult r =
     (case r_promotedTo r of
        Some promoted \<Rightarrow> if r_isPromotion r then abbreviation_of promoted else ''null''
      | None \<Rightarrow> ''null'')"

definition epValid :: "board \<Rightarrow> bool" where
  "epValid b = (case enPassantTarget b of Some t \<Rightarrow> isValid t | None \<Rightarrow> True)"

definition gameInv :: "game \<Rightarrow> bool" where
  "gameInv g =
     (allValid (pieces (board g)) \<and> distinctCoords (pieces (board g)) \<and> epValid (board g)
      \<and> halfMoveClock g \<noteq> None \<and> fullMoveNumber g \<noteq> None
      \<and> replayMoves (moveHistory g) (setupInitialPosition, White, Some 0, Some 1)
          = (True, board g, currentTurn g, halfMoveClock g, fullMoveNumber g))"

text \<open>
  The game on \<open>promotionBoard\<close> with White to move and a half-move clock of 7; and the same
  with a black knight on d3, which gives check to the white king.
\<close>

definition promotionGame :: game where
  "promotionGame = (gameOn (pieces promotionBoard) White)\<lparr>halfMoveClock := Some 7\<rparr>"

definition promotionInCheckGame :: game where
  "promotionInCheckGame =
     (gameOn (pieces promotionBoard @ [mkPiece Knight Black 5 3 True]) White)\<lparr>halfMoveClock := Some 7\<rparr>"

text \<open>
  For the round trip through FEN: the text that the signature writes for a sort key; the
  pieces that reading a placement creates for the squares of a row, of the board
  (\<open>scanned\<close>), and the pieces found on a list of squares; the text of one row of the
  placement; and the characters that are neither white space nor the separator of rows.
\<close>

definition keyText :: "int \<times> int \<times> int \<Rightarrow> string" where
  "keyText k = (case k of (s, r, c) \<Rightarrow> (''bBkKnNpPqQrR'' ! nat s) # toAlgebraic (Position r c))"

definition rowPieces :: "board \<Rightarrow> int \<Rightarrow> int list \<Rightarrow> piece list" where
  "rowPieces b r cs =
     concat (map (\<lambda>c. case getPieceAt b (Position r c) of
                         Some p \<Rightarrow> [newPiece (kind p) (color p) (Position r c)]
                       | None \<Rightarrow> []) cs)"

definition plainChar :: "char \<Rightarrow> bool" where
  "plainChar ch = (\<not> isWhiteSpace ch \<and> ch \<noteq> CHR ''/'')"

definition rowText :: "board \<Rightarrow> int \<Rightarrow> string" where
  "rowText b r = toFENRow b r [0, 1, 2, 3, 4, 5, 6, 7] 0"

definition scanned :: "board \<Rightarrow> piece list" where
  "scanned b = concat (map (\<lambda>r. rowPieces b r [0, 1, 2, 3, 4, 5, 6, 7]) [0, 1, 2, 3, 4, 5, 6, 7])"

definition foundAt :: "board \<Rightarrow> position list \<Rightarrow> piece list" where
  "foundAt b sqs = concat (map (\<lambda>sq. case getPieceAt b sq of Some p \<Rightarrow> [p] | None \<Rightarrow> []) sqs)"

definition noSpace :: "string \<Rightarrow> bool" where
  "noSpace s = (\<forall>ch \<in> set s. \<not> isWhiteSpace ch)"

section \<open>Proofs\<close>

lemma clone_id: "clone b = b"
  by (simp add: clone_def pieceClone_def newPiece_def map_idI)

lemma pathLoop_ends:
  "row t = r + int k * dr \<Longrightarrow> col t = c + int k * dc \<Longrightarrow> k < n \<Longrightarrow> pathLoop n b r c dr dc t \<noteq> None"
proof (induction n arbitrary: k r c)
  case 0
  then show ?case by simp
next
  case (Suc n)
  show ?case
  proof (cases "r \<noteq> row t \<or> c \<noteq> col t")
    case False
    then show ?thesis by simp
  next
    case True
    then have kpos: "k > 0" using Suc.prems by (cases k) auto
    then obtain j where j: "k = Suc j" by (cases k) auto
    have "row t = (r + dr) + int j * dr" "col t = (c + dc) + int j * dc" "j < n"
      using Suc.prems j by (auto simp: algebra_simps)
    from Suc.IH[OF this] show ?thesis using True by auto
  qed
qed

lemma isPathClear_ends:
  assumes "aligned (position p) t"
  shows "isPathClear p b t \<noteq> None"
proof -
  define dr where "dr = row t - row (position p)"
  define dc where "dc = col t - col (position p)"
  define d where "d = max \<bar>dr\<bar> \<bar>dc\<bar>"
  have al: "dr = 0 \<or> dc = 0 \<or> \<bar>dr\<bar> = \<bar>dc\<bar>"
    using assms by (auto simp: aligned_def dr_def dc_def)
  show ?thesis
  proof (cases "d = 0")
    case True
    then have "dr = 0" "dc = 0" by (auto simp: d_def)
    then show ?thesis
      by (simp add: isPathClear_def Let_def dr_def dc_def)
  next
    case False
    then have dpos: "d > 0" by (auto simp: d_def)
    have r1: "d * sgn dr = dr" using al by (auto simp: d_def sgn_if abs_if max_def split: if_splits)
    have c1: "d * sgn dc = dc" using al by (auto simp: d_def sgn_if abs_if max_def split: if_splits)
    have "row t = (row (position p) + sgn dr) + int (nat (d - 1)) * sgn dr"
      using r1 dpos by (simp add: dr_def algebra_simps)
    moreover have "col t = (col (position p) + sgn dc) + int (nat (d - 1)) * sgn dc"
      using c1 dpos by (simp add: dc_def algebra_simps)
    moreover have "nat (d - 1) < nat d + 1" using dpos by simp
    ultimately have "pathLoop (nat d + 1) b (row (position p) + sgn dr) (col (position p) + sgn dc)
                       (sgn dr) (sgn dc) t \<noteq> None"
      by (rule pathLoop_ends)
    then show ?thesis
      by (simp add: isPathClear_def Let_def dr_def dc_def d_def)
  qed
qed

lemma updateGameStatus_fields:
  "board (updateGameStatus g) = board g"
  "currentTurn (updateGameStatus g) = currentTurn g"
  "moveHistory (updateGameStatus g) = moveHistory g"
  "positionHistory (updateGameStatus g) = positionHistory g"
  "halfMoveClock (updateGameStatus g) = halfMoveClock g"
  "fullMoveNumber (updateGameStatus g) = fullMoveNumber g"
  by (simp_all add: updateGameStatus_def Let_def)

subsection \<open>Legal moves keep the king safe\<close>

text \<open>
  Claim C1. For every destination that \<open>getLegalMovesForPiece\<close> returns for a piece,
  executing the move from the piece's square to that destination on a clone of the board
  (with the default promotion) leaves a board on which the king of the piece's colour is
  not in check; and when the piece is the one the board holds on its square, that
  execution succeeds.
\<close>

theorem legal_moves_leave_own_king_safe:
  "dest \<in> set (getLegalMovesForPiece b p) \<Longrightarrow>
     \<not> isKingInCheck (snd (movePiece (clone b) (position p) dest ''Q'')) (color p)
     \<and> (getPieceAt b (position p) = Some p \<longrightarrow>
          (\<exists>r. fst (movePiece (clone b) (position p) dest ''Q'') = MoveDone r))"
  by (auto simp: getLegalMovesForPiece_def clone_id movePiece_def pieceConstructors_def Let_def
           split: prod.splits)

theorem legal_moves_leave_own_king_safe_witness:
  "Position 5 0 \<in> set (getLegalMovesForPiece setupInitialPosition (newPiece Knight White (Position 7 1)))
   \<and> getPieceAt setupInitialPosition (Position 7 1) = Some (newPiece Knight White (Position 7 1))
   \<and> \<not> isKingInCheck (snd (movePiece (clone setupInitialPosition) (Position 7 1) (Position 5 0) ''Q'')) White
   \<and> (\<exists>r. fst (movePiece (clone setupInitialPosition) (Position 7 1) (Position 5 0) ''Q'') = MoveDone r)"
proof -
  let ?p = "newPiece Knight White (Position 7 1)"
  have h1: "Position 5 0 \<in> set (getLegalMovesForPiece setupInitialPosition ?p)"
    by code_simp
  have h2: "getPieceAt setupInitialPosition (position ?p) = Some ?p"
    by code_simp
  have f: "position ?p = Position 7 1" "color ?p = White"
    by (simp_all add: newPiece_def)
  from legal_moves_leave_own_king_safe[OF h1] h2 have
    "\<not> isKingInCheck (snd (movePiece (clone setupInitialPosition) (position ?p) (Position 5 0) ''Q'')) (color ?p)"
    "\<exists>r. fst (movePiece (clone setupInitialPosition) (position ?p) (Position 5 0) ''Q'') = MoveDone r"
    by blast+
  with h1 h2 show ?thesis unfolding f by blast
qed

subsection \<open>What a failing loadFEN leaves behind\<close>

lemma gameLoadFEN_field_count:
  "length (splitOn CHR '' '' (trim fen)) \<noteq> 6 \<Longrightarrow> gameLoadFEN g fen = (False, g)"
  by (auto simp: gameLoadFEN_def split: list.splits)

lemma gameLoadFEN_failure_histories:
  assumes "fst (gameLoadFEN g fen) = False"
  shows "moveHistory (snd (gameLoadFEN g fen)) = moveHistory g
       \<and> positionHistory (snd (gameLoadFEN g fen)) = positionHistory g
       \<and> gameStatus (snd (gameLoadFEN g fen)) = gameStatus g"
  using assms
  by (auto simp: gameLoadFEN_def Let_def split: list.splits prod.splits bool.splits if_splits)

lemma gameLoadFEN_placement_failure:
  assumes "splitOn CHR '' '' (trim fen) = [p0, p1, p2, p3, p4, p5]"
    and "fst (loadFEN (board g) p0) = False"
  shows "gameLoadFEN g fen = (False, g\<lparr>board := snd (loadFEN (board g) p0)\<rparr>)"
  using assms
  by (auto simp: gameLoadFEN_def split: prod.splits bool.splits)

lemma loadFEN_clears:
  "enPassantTarget (snd (loadFEN b p)) = None \<and> capturedPieces (snd (loadFEN b p)) = []"
  by (auto simp: loadFEN_def Let_def split: prod.splits)

lemma loadFEN_rank_count:
  "length (splitOn CHR ''/'' p) \<noteq> 8 \<Longrightarrow>
     loadFEN b p = (False, b\<lparr>pieces := [], capturedPieces := [], enPassantTarget := None\<rparr>)"
  by (auto simp: loadFEN_def Let_def)

text \<open>
  Claim C2, as the spec states it, fails: a \<open>loadFEN\<close> that returns \<open>false\<close> has already
  written into the game. On the start position, the text
  \<open>8/8/8/8/8/8/8/8 b - - x 1\<close> (a half-move clock that is no number) is rejected, and by
  then the board is empty, the turn is Black's and the half-move clock is \<open>NaN\<close>; at the
  level of the board, the placement \<open>8/8\<close> (two ranks) is rejected and leaves the board
  without pieces.
\<close>

theorem loadFEN_failure_changes_state:
  "fst (gameLoadFEN newGame ''8/8/8/8/8/8/8/8 b - - x 1'') = False
   \<and> pieces (board (snd (gameLoadFEN newGame ''8/8/8/8/8/8/8/8 b - - x 1''))) = []
   \<and> pieces (board newGame) \<noteq> []
   \<and> currentTurn (snd (gameLoadFEN newGame ''8/8/8/8/8/8/8/8 b - - x 1'')) = Black
   \<and> currentTurn newGame = White
   \<and> halfMoveClock (snd (gameLoadFEN newGame ''8/8/8/8/8/8/8/8 b - - x 1'')) = None
   \<and> halfMoveClock newGame = Some 0
   \<and> fst (loadFEN setupInitialPosition ''8/8'') = False
   \<and> pieces (snd (loadFEN setupInitialPosition ''8/8'')) = []
   \<and> pieces setupInitialPosition \<noteq> []"
  by code_simp

text \<open>
  Claim C2, amended. A \<open>Game.loadFEN\<close> that fails on the number of fields leaves the game
  exactly as it was. Every failing \<open>Game.loadFEN\<close> leaves the move history, the position
  history and the game status as they were; when it is the piece placement that is
  rejected, the turn and the clocks are as they were too, and the board is the one the
  failed \<open>Board.loadFEN\<close> left. \<open>Board.loadFEN\<close> does not keep the prior position: it
  leaves the en passant target and the captured pieces cleared, and on a wrong number of
  ranks the board without pieces.
\<close>

theorem loadFEN_failure_effects:
  "(length (splitOn CHR '' '' (trim fen)) \<noteq> 6 \<longrightarrow> gameLoadFEN g fen = (False, g))
   \<and> (fst (gameLoadFEN g fen) = False \<longrightarrow>
        moveHistory (snd (gameLoadFEN g fen)) = moveHistory g
        \<and> positionHistory (snd (gameLoadFEN g fen)) = positionHistory g
        \<and> gameStatus (snd (gameLoadFEN g fen)) = gameStatus g)
   \<and> (splitOn CHR '' '' (trim fen) = [p0, p1, p2, p3, p4, p5] \<and> fst (loadFEN (board g) p0) = False \<longrightarrow>
        gameLoadFEN g fen = (False, g\<lparr>board := snd (loadFEN (board g) p0)\<rparr>))
   \<and> (fst (loadFEN b p) = False \<longrightarrow>
        enPassantTarget (snd (loadFEN b p)) = None \<and> capturedPieces (snd (loadFEN b p)) = [])
   \<and> (length (splitOn CHR ''/'' p) \<noteq> 8 \<longrightarrow>
        loadFEN b p = (False, b\<lparr>pieces := [], capturedPieces := [], enPassantTarget := None\<rparr>))"
  using gameLoadFEN_field_count[of fen g] gameLoadFEN_failure_histories[of g fen]
    gameLoadFEN_placement_failure[of fen p0 p1 p2 p3 p4 p5 g] loadFEN_clears[of b p]
    loadFEN_rank_count[of p b]
  by blast

text \<open>
  Claim C2, amended, on concrete texts: \<open>8/8\<close> has one field and leaves the new game as
  it is; \<open>8/8 w - - 0 1\<close> has six fields and a placement of two ranks, and leaves the
  new game with an empty board and everything else as it was.
\<close>

theorem loadFEN_failure_effects_witness:
  "gameLoadFEN newGame ''8/8'' = (False, newGame)
   \<and> fst (gameLoadFEN newGame ''8/8 w - - 0 1'') = False
   \<and> moveHistory (snd (gameLoadFEN newGame ''8/8 w - - 0 1'')) = moveHistory newGame
   \<and> gameLoadFEN newGame ''8/8 w - - 0 1''
       = (False, newGame\<lparr>board := snd (loadFEN (board newGame) ''8/8'')\<rparr>)
   \<and> enPassantTarget (snd (loadFEN setupInitialPosition ''8/8'')) = None
   \<and> loadFEN setupInitialPosition ''8/8''
       = (False, setupInitialPosition\<lparr>pieces := [], capturedPieces := [], enPassantTarget := None\<rparr>)"
proof -
  have h1: "length (splitOn CHR '' '' (trim ''8/8'')) \<noteq> 6" by code_simp
  have h2: "fst (gameLoadFEN newGame ''8/8 w - - 0 1'') = False" by code_simp
  have h3: "splitOn CHR '' '' (trim ''8/8 w - - 0 1'') = [''8/8'', ''w'', ''-'', ''-'', ''0'', ''1'']"
    by code_simp
  have h4: "fst (loadFEN (board newGame) ''8/8'') = False" by code_simp
  have h5: "fst (loadFEN setupInitialPosition ''8/8'') = False" by code_simp
  have h6: "length (splitOn CHR ''/'' ''8/8'') \<noteq> 8" by code_simp
  from loadFEN_failure_effects[of "''8/8''" newGame "''8/8''" "''w''" "''-''" "''-''" "''0''" "''1''"
         setupInitialPosition "''8/8''"] h1
  have a: "gameLoadFEN newGame ''8/8'' = (False, newGame)" by blast
  from loadFEN_failure_effects[of "''8/8 w - - 0 1''" newGame "''8/8''" "''w''" "''-''" "''-''" "''0''" "''1''"
         setupInitialPosition "''8/8''"] h2 h3 h4 h5 h6
  have b: "moveHistory (snd (gameLoadFEN newGame ''8/8 w - - 0 1'')) = moveHistory newGame"
          "gameLoadFEN newGame ''8/8 w - - 0 1''
             = (False, newGame\<lparr>board := snd (loadFEN (board newGame) ''8/8'')\<rparr>)"
          "enPassantTarget (snd (loadFEN setupInitialPosition ''8/8'')) = None"
          "loadFEN setupInitialPosition ''8/8''
             = (False, setupInitialPosition\<lparr>pieces := [], capturedPieces := [], enPassantTarget := None\<rparr>)"
    by blast+
  from a b h2 show ?thesis by blast
qed

subsection \<open>Castling\<close>

text \<open>
  Claim C3 does not hold of the code. With White's king on e1 and rook on h1, neither
  moved, and a black rook on f8, the square f1 that the king crosses is attacked by
  Black; yet g1 is among the legal moves of the king and \<open>makeMove\<close> commits e1-g1 as
  \<open>O-O\<close>. Only the position after the move is tested for check.
\<close>

theorem castling_through_attacked_square:
  "isSquareAttacked (board castlingGame) (Position 7 5) Black
   \<and> Position 7 6 \<in> set (getLegalMovesForPiece (board castlingGame) (mkPiece King White 7 4 False))
   \<and> notationOf (fst (makeMove castlingGame (Square (Position 7 4)) (Square (Position 7 6)) ''Q''))
       = Some ''O-O''"
  by code_simp

subsection \<open>Disambiguation in the notation\<close>

text \<open>
  Claim C4 does not hold of the code. With white knights on b1 and f3, both able to go
  to d2, the move b1-d2 is written \<open>Nd2\<close>, without the file of the source square: the
  notation is computed on the board after the move, where d2 holds the knight that has
  moved, of the other knight's colour, so that \<open>isValidMove\<close> rejects d2 for it.
\<close>

theorem ambiguous_knight_move_without_disambiguation:
  "getPieceAt (board twoKnightsGame) (Position 7 1) = Some (mkPiece Knight White 7 1 False)
   \<and> getPieceAt (board twoKnightsGame) (Position 5 5) = Some (mkPiece Knight White 5 5 True)
   \<and> Position 6 3 \<in> set (getLegalMovesForPiece (board twoKnightsGame) (mkPiece Knight White 5 5 True))
   \<and> notationOf (fst (makeMove twoKnightsGame (Square (Position 7 1)) (Square (Position 6 3)) ''Q''))
       = Some ''Nd2''"
  by code_simp

subsection \<open>Game status\<close>

lemma commitMove_fst:
  "fst (commitMove g p f t r b') \<noteq> MakeFailed e"
  "fst (commitMove g p f t r b') \<noteq> MakeThrew"
  by (simp_all add: commitMove_def Let_def)

lemma commitMove_done:
  "\<exists>mv. commitMove g p f t r b'
     = (MakeDone mv (gameStatus (snd (commitMove g p f t r b'))), snd (commitMove g p f t r b'))"
  by (simp add: commitMove_def Let_def)

lemma commitMove_is_update: "\<exists>g5. snd (commitMove g p f t r b') = updateGameStatus g5"
  unfolding commitMove_def Let_def snd_conv by (rule exI, rule refl)

lemma makeMove_done_is_update:
  assumes "makeMove g from to promo = (MakeDone mv st, g')"
  shows "st = gameStatus g' \<and> (\<exists>g5. g' = updateGameStatus g5)"
proof -
  from assms obtain p f t r b' where "commitMove g p f t r b' = (MakeDone mv st, g')"
    by (auto simp: makeMove_def
          split: option.splits prod.splits move_outcome.splits if_splits bool.splits)
  with commitMove_done[of g p f t r b'] commitMove_is_update[of g p f t r b']
  show ?thesis by auto
qed

lemma updateGameStatus_status:
  "gameStatus (updateGameStatus g) =
     (if isCheckmate (board g) (currentTurn g) then
        (if currentTurn g = White then CHECKMATE_BLACK else CHECKMATE_WHITE)
      else if isStalemate (board g) (currentTurn g) then DRAW_STALEMATE
      else if isInsufficientMaterial (board g) then DRAW_INSUFFICIENT
      else if repeatCount g \<ge> 3 then DRAW_REPETITION
      else if atLeast100 (halfMoveClock g) then DRAW_FIFTY_MOVE
      else if isKingInCheck (board g) (currentTurn g) then CHECK
      else ACTIVE)"
  by (simp add: updateGameStatus_def Let_def)

text \<open>
  Claim C5. After a committed move the status that \<open>makeMove\<close> reports is the status of
  the game, and it is decided in this order on the new board, for the side now to move:
  checkmate, then stalemate, then insufficient material, then a position signature that
  occurs at least three times in the position history, then a half-move clock of at least
  100, then check, and otherwise the game is active. A later condition decides the status
  only when every earlier one fails.
\<close>

theorem status_precedence:
  assumes "makeMove g from to promo = (MakeDone mv st, g')"
  shows "st = gameStatus g'
    \<and> (let b = board g'; t = currentTurn g';
            cm = isCheckmate b t;
            sm = isStalemate b t;
            im = isInsufficientMaterial b;
            rep = (length (filter (\<lambda>s. s = getPositionSignature b) (positionHistory g')) \<ge> 3);
            fifty = (\<exists>n. halfMoveClock g' = Some n \<and> n \<ge> 100);
            chk = isKingInCheck b t
        in (cm \<longrightarrow> gameStatus g' = (if t = White then CHECKMATE_BLACK else CHECKMATE_WHITE))
         \<and> (\<not> cm \<and> sm \<longrightarrow> gameStatus g' = DRAW_STALEMATE)
         \<and> (\<not> cm \<and> \<not> sm \<and> im \<longrightarrow> gameStatus g' = DRAW_INSUFFICIENT)
         \<and> (\<not> cm \<and> \<not> sm \<and> \<not> im \<and> rep \<longrightarrow> gameStatus g' = DRAW_REPETITION)
         \<and> (\<not> cm \<and> \<not> sm \<and> \<not> im \<and> \<not> rep \<and> fifty \<longrightarrow> gameStatus g' = DRAW_FIFTY_MOVE)
         \<and> (\<not> cm \<and> \<not> sm \<and> \<not> im \<and> \<not> rep \<and> \<not> fifty \<and> chk \<longrightarrow> gameStatus g' = CHECK)
         \<and> (\<not> cm \<and> \<not> sm \<and> \<not> im \<and> \<not> rep \<and> \<not> fifty \<and> \<not> chk \<longrightarrow> gameStatus g' = ACTIVE))"
proof -
  from makeMove_done_is_update[OF assms] obtain g5
    where st: "st = gameStatus g'" and g': "g' = updateGameStatus g5"
    by blast
  have a: "atLeast100 (halfMoveClock g5) = (\<exists>n. halfMoveClock g5 = Some n \<and> n \<ge> 100)"
    by (cases "halfMoveClock g5") (auto simp: atLeast100_def)
  have r: "(repeatCount g5 \<ge> 3)
           = (length (filter (\<lambda>s. s = getPositionSignature (board g5)) (positionHistory g5)) \<ge> 3)"
    by (simp add: repeatCount_def)
  show ?thesis
    unfolding g' st updateGameStatus_fields Let_def updateGameStatus_status a r
    by simp
qed

text \<open>
  Claim C5 on a concrete game: in \<open>pinnedRookGame\<close> the move Re2-e3 is committed; none of
  the conditions holds for Black on the new board, and the status is \<open>ACTIVE\<close>.
\<close>

theorem status_precedence_witness:
  "\<exists>mv. makeMove pinnedRookGame (Square (Position 6 4)) (Square (Position 5 4)) ''Q''
      = (MakeDone mv ACTIVE, snd (makeMove pinnedRookGame (Square (Position 6 4)) (Square (Position 5 4)) ''Q''))
   \<and> gameStatus (snd (makeMove pinnedRookGame (Square (Position 6 4)) (Square (Position 5 4)) ''Q'')) = ACTIVE"
proof -
  let ?r = "makeMove pinnedRookGame (Square (Position 6 4)) (Square (Position 5 4)) ''Q''"
  have d: "isMakeDone (fst ?r)" by code_simp
  then obtain mv st where eq: "?r = (MakeDone mv st, snd ?r)"
    by (cases "fst ?r") (auto simp: isMakeDone_def prod_eq_iff)
  have n: "\<not> isCheckmate (board (snd ?r)) (currentTurn (snd ?r))"
          "\<not> isStalemate (board (snd ?r)) (currentTurn (snd ?r))"
          "\<not> isInsufficientMaterial (board (snd ?r))"
          "\<not> length (filter (\<lambda>s. s = getPositionSignature (board (snd ?r))) (positionHistory (snd ?r))) \<ge> 3"
          "\<not> isKingInCheck (board (snd ?r)) (currentTurn (snd ?r))"
    by code_simp+
  have h: "halfMoveClock (snd ?r) = Some 1" by code_simp
  from status_precedence[OF eq] n h have "st = gameStatus (snd ?r)" "gameStatus (snd ?r) = ACTIVE"
    by (simp_all add: Let_def)
  with eq show ?thesis by auto
qed

subsection \<open>Failures of makeMove\<close>

lemma makeMove_failed_unchanged:
  "fst (makeMove g from to promo) = MakeFailed e \<Longrightarrow> snd (makeMove g from to promo) = g"
  by (auto simp: commitMove_fst makeMove_def
           split: option.splits prod.splits move_outcome.splits if_splits bool.splits)

text \<open>
  The failures that \<open>makeMove\<close> returns leave the game as it was: with both squares
  resolved, a source square that is empty or holds a piece of the side not to move gives
  the not-your-turn error, a move that leaves the mover's king in check on the clone gives
  the king-in-check error, and every returned failure comes with the game unchanged.
\<close>

lemma makeMove_returned_failures:
  assumes "resolveSquare from = Some fromPos" and "resolveSquare to = Some toPos"
  shows "(getPieceAt (board g) fromPos = None
            \<or> (\<exists>p. getPieceAt (board g) fromPos = Some p \<and> color p \<noteq> currentTurn g)
          \<longrightarrow> makeMove g from to promo = (MakeFailed (NotTurn (currentTurn g)), g))
       \<and> ((\<exists>p. getPieceAt (board g) fromPos = Some p \<and> color p = currentTurn g)
            \<and> isMoveDone (fst (movePiece (clone (board g)) fromPos toPos promo))
            \<and> isKingInCheck (snd (movePiece (clone (board g)) fromPos toPos promo)) (currentTurn g)
          \<longrightarrow> makeMove g from to promo = (MakeFailed WouldLeaveKingInCheck, g))
       \<and> (\<forall>e. fst (makeMove g from to promo) = MakeFailed e \<longrightarrow> snd (makeMove g from to promo) = g)"
proof (intro conjI)
  show "getPieceAt (board g) fromPos = None
            \<or> (\<exists>p. getPieceAt (board g) fromPos = Some p \<and> color p \<noteq> currentTurn g)
          \<longrightarrow> makeMove g from to promo = (MakeFailed (NotTurn (currentTurn g)), g)"
    using assms by (auto simp: makeMove_def)
  show "(\<exists>p. getPieceAt (board g) fromPos = Some p \<and> color p = currentTurn g)
            \<and> isMoveDone (fst (movePiece (clone (board g)) fromPos toPos promo))
            \<and> isKingInCheck (snd (movePiece (clone (board g)) fromPos toPos promo)) (currentTurn g)
          \<longrightarrow> makeMove g from to promo = (MakeFailed WouldLeaveKingInCheck, g)"
    using assms by (auto simp: makeMove_def isMoveDone_def split: prod.splits move_outcome.splits)
  show "\<forall>e. fst (makeMove g from to promo) = MakeFailed e \<longrightarrow> snd (makeMove g from to promo) = g"
    using makeMove_failed_unchanged by blast
qed

text \<open>
  Claim C6 does not hold of the code for every failure. In \<open>promotionGame\<close> it is White's
  turn and the pawn a7 can promote on a8. With the promotion text \<open>constructor\<close> the
  simulation on the clone reports success and the king is not in check, so \<open>makeMove\<close>
  executes the move on the live board and sets the half-move clock, and then ends in a
  thrown TypeError: the call has failed, and the game is not the one it was called on (the
  pawn is gone from a7 and the clock went from 7 to 0). When the king is in check after
  the move (\<open>promotionInCheckGame\<close>), the same request is refused with the king-in-check
  error and the game is as it was.
\<close>

theorem makeMove_throws_after_writing:
  "getPieceAt (board promotionGame) (Position 1 0) = Some (mkPiece Pawn White 1 0 True)
   \<and> currentTurn promotionGame = White
   \<and> halfMoveClock promotionGame = Some 7
   \<and> fst (makeMove promotionGame (Square (Position 1 0)) (Square (Position 0 0)) ''constructor'')
       = MakeThrew
   \<and> getPieceAt
        (board (snd (makeMove promotionGame (Square (Position 1 0)) (Square (Position 0 0)) ''constructor'')))
        (Position 1 0) = None
   \<and> halfMoveClock
        (snd (makeMove promotionGame (Square (Position 1 0)) (Square (Position 0 0)) ''constructor''))
       = Some 0
   \<and> fst (makeMove promotionInCheckGame (Square (Position 1 0)) (Square (Position 0 0)) ''constructor'')
       = MakeFailed WouldLeaveKingInCheck
   \<and> halfMoveClock
        (snd (makeMove promotionInCheckGame (Square (Position 1 0)) (Square (Position 0 0))
                ''constructor''))
       = Some 7"
  by code_simp

subsection \<open>Promotion\<close>

text \<open>
  Claim C10 does not hold of the code for every text. A white pawn on a7 that moves to
  a8 promotes; with the promotion text \<open>constructor\<close>, which is none of R, B and N, the
  lookup in the table of constructors finds the inherited \<open>Object\<close>, and what is created
  is no queen (no piece at all); with \<open>toString\<close> the call throws.
\<close>

theorem promotion_by_inherited_key_is_no_queen:
  "getPieceAt promotionBoard (Position 1 0) = Some (mkPiece Pawn White 1 0 True)
   \<and> isValidMove (mkPiece Pawn White 1 0 True) promotionBoard (Position 0 0)
   \<and> isPromotionMove (mkPiece Pawn White 1 0 True) (Position 0 0)
   \<and> fst (movePiece promotionBoard (Position 1 0) (Position 0 0) ''constructor'') = MoveNonPiece
   \<and> \<not> list_ex (\<lambda>p. kind p = Queen)
          (pieces (snd (movePiece promotionBoard (Position 1 0) (Position 0 0) ''constructor'')))
   \<and> fst (movePiece promotionBoard (Position 1 0) (Position 0 0) ''toString'') = MoveThrew"
  by code_simp

subsection \<open>No two pieces on one square\<close>

lemma getPieceAt_find: "getPieceAt b pos = find (\<lambda>p. position p = pos) (pieces b)"
proof -
  have h: "(\<lambda>p. row (position p) = row pos \<and> col (position p) = col pos) = (\<lambda>p. position p = pos)"
    by (auto intro: position.expand)
  show ?thesis unfolding getPieceAt_def h ..
qed

lemma getPieceAt_None_iff: "getPieceAt b pos = None \<longleftrightarrow> pos \<notin> position ` set (pieces b)"
  by (auto simp: getPieceAt_find find_None_iff)

lemma getPieceAt_SomeD: "getPieceAt b pos = Some p \<Longrightarrow> p \<in> set (pieces b) \<and> position p = pos"
  by (auto simp: getPieceAt_find find_Some_iff)

lemma set_removeFirstAt: "set (removeFirstAt pos ps) \<subseteq> set ps"
  by (induction ps) auto

lemma distinct_removeFirstAt:
  "distinct (map position ps) \<Longrightarrow> distinct (map position (removeFirstAt pos ps))"
proof (induction ps)
  case Nil
  then show ?case by simp
next
  case (Cons a ps)
  have "position ` set (removeFirstAt pos ps) \<subseteq> position ` set ps"
    using set_removeFirstAt by blast
  with Cons show ?case by auto
qed

lemma removeFirstAt_absent:
  "distinct (map position ps) \<Longrightarrow> pos \<notin> position ` set (removeFirstAt pos ps)"
  by (induction ps) auto

lemma positions_updateFirstAt:
  "position ` set (updateFirstAt pos (moveTo q) ps) \<subseteq> insert q (position ` set ps)"
  by (induction ps) (auto simp: moveTo_def)

lemma distinct_updateFirstAt:
  "distinct (map position ps) \<Longrightarrow> q \<notin> position ` set ps \<Longrightarrow>
     distinct (map position (updateFirstAt pos (moveTo q) ps))"
proof (induction ps)
  case Nil
  then show ?case by simp
next
  case (Cons p ps)
  show ?case
  proof (cases "position p = pos")
    case True
    with Cons.prems show ?thesis by (auto simp: moveTo_def)
  next
    case False
    have "position p \<notin> position ` set (updateFirstAt pos (moveTo q) ps)"
      using positions_updateFirstAt[of pos q ps] Cons.prems by auto
    with False Cons show ?thesis by auto
  qed
qed

lemma captureStep_distinct:
  assumes "distinctCoords (pieces b)"
  shows "distinctCoords (pieces (snd (captureStep b sq)))"
    and "sq \<notin> position ` set (pieces (snd (captureStep b sq)))"
    and "set (pieces (snd (captureStep b sq))) \<subseteq> set (pieces b)"
  using assms set_removeFirstAt[of sq "pieces b"]
  by (auto simp: captureStep_def distinctCoords_def distinct_removeFirstAt removeFirstAt_absent
        getPieceAt_None_iff split: option.splits)

lemma enPassantStep_distinct:
  assumes "distinctCoords (pieces b)"
  shows "distinctCoords (pieces (snd (enPassantStep p to b)))"
    and "set (pieces (snd (enPassantStep p to b))) \<subseteq> set (pieces b)"
  using assms captureStep_distinct[OF assms]
  by (auto simp: enPassantStep_def)

lemma castling_rook_square_empty:
  assumes "getPieceAt b from = Some p" and "isValidMove p b to" and "kind p = King"
    and "\<bar>col to - col from\<bar> = 2"
  shows "getPieceAt b (Position (row from) (if col to > col from then col to - 1 else col to + 1)) = None"
proof -
  have pf: "position p = from" using assms(1) by (simp add: getPieceAt_SomeD)
  have v: "isValid to" and cm: "canMoveTo p b to"
    using assms(2) by (auto simp: isValidMove_def split: if_splits option.splits)
  show ?thesis
  proof (cases "col to > col from")
    case True
    then have ct: "col to = col from + 2" using assms(4) by auto
    with v have le: "col from \<le> 5" by (auto simp: isValid_def)
    from cm assms(3) pf ct le
    have "list_all (\<lambda>c. getPieceAt b (Position (row from) c) = None) [min (col from) 7 + 1 .. max (col from) 7 - 1]"
      by (auto simp: canMoveTo_def Let_def split: if_splits option.splits)
    moreover have "col from + 1 \<in> set [min (col from) 7 + 1 .. max (col from) 7 - 1]"
      using le by auto
    ultimately have "getPieceAt b (Position (row from) (col from + 1)) = None"
      by (simp add: list_all_iff)
    moreover have "(if col to > col from then col to - 1 else col to + 1) = col from + 1"
      using True ct by simp
    ultimately show ?thesis by (simp only:)
  next
    case False
    then have ct: "col to = col from - 2" using assms(4) by auto
    with v have ge: "col from \<ge> 2" by (auto simp: isValid_def)
    from cm assms(3) pf ct ge
    have "list_all (\<lambda>c. getPieceAt b (Position (row from) c) = None) [min (col from) 0 + 1 .. max (col from) 0 - 1]"
      by (auto simp: canMoveTo_def Let_def split: if_splits option.splits)
    moreover have "col from - 1 \<in> set [min (col from) 0 + 1 .. max (col from) 0 - 1]"
      using ge by auto
    ultimately have "getPieceAt b (Position (row from) (col from - 1)) = None"
      by (simp add: list_all_iff)
    moreover have "(if col to > col from then col to - 1 else col to + 1) = col from - 1"
      using False ct by simp
    ultimately show ?thesis by (simp only:)
  qed
qed

lemma castlingStep_distinct:
  assumes "distinctCoords (pieces b3)"
    and "kind p = King \<and> \<bar>col to - col from\<bar> = 2 \<longrightarrow>
           Position (row from) (if col to > col from then col to - 1 else col to + 1)
             \<notin> position ` set (pieces b3)"
  shows "distinctCoords (pieces (snd (snd (castlingStep p from to b3))))"
  using assms
  by (auto simp: castlingStep_def Let_def distinctCoords_def distinct_updateFirstAt
           split: option.splits)

lemma movePiece_distinct:
  assumes d: "distinctCoords (pieces b)"
  shows "distinctCoords (pieces (snd (movePiece b from to promo)))"
proof (cases "getPieceAt b from")
  case None
  then show ?thesis using d by (simp add: movePiece_def)
next
  case (Some p)
  show ?thesis
  proof (cases "isValidMove p b to")
    case False
    then show ?thesis using d Some by (simp add: movePiece_def)
  next
    case True
    define b1 where "b1 = snd (captureStep b to)"
    define b2 where "b2 = snd (enPassantStep p to b1)"
    define still where "still = (\<not> (fst (enPassantStep p to b1) \<noteq> None \<and> capturePositionOf p to = from))"
    have d1: "distinctCoords (pieces b1)" and n1: "to \<notin> position ` set (pieces b1)"
      and s1: "set (pieces b1) \<subseteq> set (pieces b)"
      using captureStep_distinct[OF d, of to] by (auto simp: b1_def)
    have d2: "distinctCoords (pieces b2)" and s2: "set (pieces b2) \<subseteq> set (pieces b1)"
      using enPassantStep_distinct[OF d1, of p to] by (auto simp: b2_def)
    have n2: "to \<notin> position ` set (pieces b2)" using n1 s2 by blast
    define ps3 where "ps3 = (if still then removeFirstAt from (pieces b2) else pieces b2)"
    have d3: "distinct (map position ps3)" and n3: "to \<notin> position ` set ps3"
      using d2 n2 set_removeFirstAt[of "from" "pieces b2"]
      by (auto simp: ps3_def distinctCoords_def distinct_removeFirstAt)
    define ps4 where "ps4 = (if still then updateFirstAt from (moveTo to) (pieces b2) else pieces b2)"
    have d4: "distinct (map position ps4)"
      using d2 n2 by (auto simp: ps4_def distinctCoords_def distinct_updateFirstAt)
    have s4: "position ` set ps4 \<subseteq> insert to (position ` set (pieces b))"
      using positions_updateFirstAt[of "from" to "pieces b2"] s1 s2 by (auto simp: ps4_def)
    have c: "kind p = King \<and> \<bar>col to - col from\<bar> = 2 \<longrightarrow>
           Position (row from) (if col to > col from then col to - 1 else col to + 1)
             \<notin> position ` set ps4"
    proof
      assume a: "kind p = King \<and> \<bar>col to - col from\<bar> = 2"
      let ?q = "Position (row from) (if col to > col from then col to - 1 else col to + 1)"
      have "getPieceAt b ?q = None"
        using castling_rook_square_empty[OF Some True] a by blast
      then have "?q \<notin> position ` set (pieces b)" by (simp add: getPieceAt_None_iff)
      moreover have "?q \<noteq> to" by (cases to) auto
      ultimately show "?q \<notin> position ` set ps4" using s4 by blast
    qed
    have d5: "distinctCoords (pieces (snd (snd (castlingStep p from to (b2\<lparr>pieces := ps4\<rparr>)))))"
      by (rule castlingStep_distinct) (use d4 c in \<open>auto simp: distinctCoords_def\<close>)
    have eq: "pieces (snd (movePiece b from to promo)) =
        (if isPromotionMove p to then
           (case pieceConstructors promo of
              NotConstructible \<Rightarrow> pieces b2
            | ObjectClass \<Rightarrow> ps3
            | PieceClass k \<Rightarrow> ps3 @ [(newPiece k (color p) to)\<lparr>hasMoved := True\<rparr>])
         else pieces (snd (snd (castlingStep p from to (b2\<lparr>pieces := ps4\<rparr>)))))"
      by (auto simp add: movePiece_def Some True Let_def case_prod_beta b1_def b2_def still_def
            ps3_def ps4_def split: constructor_lookup.splits)
    show ?thesis
      unfolding distinctCoords_def eq
      using d2 d3 n3 d5
      by (auto simp: distinctCoords_def newPiece_def split: constructor_lookup.splits)
  qed
qed

lemma digitValue_emptyRun: "isEmptyRun ch \<Longrightarrow> 1 \<le> digitValue ch \<and> digitValue ch \<le> 8"
  by (auto simp: isEmptyRun_def digitValue_def)

lemma loadRow_invariant:
  assumes "loadRow r s c ps = (ok, c', ps')"
    and "distinct (map position ps)" and "placedBefore r c ps"
  shows "distinct (map position ps') \<and> placedBefore r c' ps' \<and> c \<le> c'"
  using assms
proof (induction r s c ps rule: loadRow.induct)
  case (1 r c ps)
  then show ?case by simp
next
  case (2 r ch rest c ps)
  show ?case
  proof (cases "isEmptyRun ch")
    case True
    have pb: "placedBefore r (c + digitValue ch) ps"
      using "2.prems"(3) digitValue_emptyRun[OF True] by (fastforce simp: placedBefore_def)
    from "2.IH"(1)[OF True _ "2.prems"(2) pb] "2.prems"(1) True digitValue_emptyRun[OF True]
    show ?thesis by auto
  next
    case False
    note ne = False
    show ?thesis
    proof (cases "isPieceLetter ch")
      case False
      with ne "2.prems" show ?thesis by auto
    next
      case True
      show ?thesis
      proof (cases "kindOfChar ch")
        case None
        with ne True "2.prems" show ?thesis by auto
      next
        case (Some k)
        let ?np = "newPiece k (colorOfChar ch) (Position r c)"
        have "Position r c \<notin> position ` set ps"
        proof
          assume "Position r c \<in> position ` set ps"
          then obtain x where x: "x \<in> set ps" "position x = Position r c" by auto
          then have "row (position x) = r" "col (position x) = c" by simp_all
          with x(1) "2.prems"(3) show False by (auto simp: placedBefore_def)
        qed
        then have d: "distinct (map position (ps @ [?np]))"
          using "2.prems"(2) by (auto simp: newPiece_def)
        have pb: "placedBefore r (c + 1) (ps @ [?np])"
          using "2.prems"(3) by (fastforce simp: placedBefore_def newPiece_def)
        from "2.IH"(2)[OF ne True Some _ d pb] "2.prems"(1) ne True Some
        show ?thesis by auto
      qed
    qed
  qed
qed

lemma loadRows_distinct:
  assumes "loadRows r rows ps = (ok, ps')"
    and "distinct (map position ps)" and "placedBefore r 0 ps"
  shows "distinct (map position ps')"
  using assms
proof (induction r rows ps rule: loadRows.induct)
  case (1 r ps)
  then show ?case by simp
next
  case (2 r x xs ps)
  obtain ok1 c1 ps1 where lr: "loadRow r x 0 ps = (ok1, c1, ps1)"
    by (cases "loadRow r x 0 ps") auto
  from loadRow_invariant[OF lr "2.prems"(2,3)]
  have d1: "distinct (map position ps1)" and pb1: "placedBefore r c1 ps1" by auto
  show ?case
  proof (cases "ok1 \<and> c1 = 8")
    case False
    with "2.prems"(1) lr d1 show ?thesis by (auto split: if_splits)
  next
    case True
    have pb: "placedBefore (r + 1) 0 ps1"
      using pb1 by (fastforce simp: placedBefore_def)
    from True "2.prems"(1) lr have "loadRows (r + 1) xs ps1 = (ok, ps')" by simp
    from "2.IH"[OF lr[symmetric] _ _ _ this d1 pb] True show ?thesis by auto
  qed
qed

lemma loadFEN_distinct: "distinctCoords (pieces (snd (loadFEN b fen)))"
proof (cases "length (splitOn CHR ''/'' fen) = 8")
  case False
  then show ?thesis by (simp add: loadFEN_def Let_def distinctCoords_def)
next
  case True
  obtain ok ps where l: "loadRows 0 (splitOn CHR ''/'' fen) [] = (ok, ps)"
    by (cases "loadRows 0 (splitOn CHR ''/'' fen) []") auto
  from loadRows_distinct[OF l] have "distinct (map position ps)"
    by (simp add: placedBefore_def)
  with True l show ?thesis by (simp add: loadFEN_def Let_def distinctCoords_def)
qed

lemma positions_updateFirstWhere:
  "map position (updateFirstWhere P (\<lambda>p. p\<lparr>hasMoved := m\<rparr>) ps) = map position ps"
  by (induction ps) auto

lemma positions_updateFirstAt_flag:
  "map position (updateFirstAt pos (\<lambda>p. p\<lparr>hasMoved := m\<rparr>) ps) = map position ps"
  by (induction ps) auto

lemma positions_clearKingMoved: "map position (pieces (clearKingMoved c b)) = map position (pieces b)"
  by (simp add: clearKingMoved_def positions_updateFirstWhere)

lemma positions_clearRookMoved: "map position (pieces (clearRookMoved c k b)) = map position (pieces b)"
  by (simp add: clearRookMoved_def positions_updateFirstAt_flag split: option.splits)

lemma positions_applyCastlingField:
  "map position (pieces (applyCastlingField s b)) = map position (pieces b)"
proof -
  have "map position (map (\<lambda>p. if kind p = King \<or> kind p = Rook then p\<lparr>hasMoved := True\<rparr> else p) (pieces b))
        = map position (pieces b)"
    by (induction "pieces b") auto
  then show ?thesis
    by (simp add: applyCastlingField_def Let_def positions_clearKingMoved positions_clearRookMoved)
qed

lemma gameLoadFEN_distinct:
  assumes "gameLoadFEN g fen = (True, g')"
  shows "distinctCoords (pieces (board g'))"
proof -
  from assms obtain p0 p2 b0 ep where
    "loadFEN (board g) p0 = (True, b0)"
    "board g' = (applyCastlingField p2 b0)\<lparr>enPassantTarget := ep\<rparr>"
    by (auto simp: gameLoadFEN_def Let_def updateGameStatus_fields
          split: list.splits prod.splits bool.splits if_splits)
  with loadFEN_distinct[of "board g" p0] show ?thesis
    by (simp add: distinctCoords_def positions_applyCastlingField)
qed

lemma setup_distinct: "distinctCoords (pieces setupInitialPosition)"
  by (simp add: setupInitialPosition_def distinctCoords_def newPiece_def)

text \<open>
  Claim C9. No two pieces share a square on the initial setup; a successful \<open>movePiece\<close>
  on a board without shared squares gives a board without shared squares, whatever the
  move does (capture, en passant, promotion, castling); and the board that a successful
  \<open>loadFEN\<close> leaves, of the board or of the game, has no shared square.
\<close>

theorem pieces_never_share_a_square:
  "distinctCoords (pieces setupInitialPosition)
   \<and> (distinctCoords (pieces b) \<and> movePiece b from to promotionPiece = (MoveDone r, b')
        \<longrightarrow> distinctCoords (pieces b'))
   \<and> (loadFEN b0 placement = (True, b1) \<longrightarrow> distinctCoords (pieces b1))
   \<and> (gameLoadFEN g fen = (True, g') \<longrightarrow> distinctCoords (pieces (board g')))"
  using setup_distinct movePiece_distinct[of b "from" to promotionPiece]
    loadFEN_distinct[of b0 placement] gameLoadFEN_distinct[of g fen g']
  by auto

text \<open>
  Claim C9 on concrete calls: the promotion a7-a8 on \<open>promotionBoard\<close>, the placement
  \<open>8/8/8/8/8/8/8/K6k\<close> and the full FEN built on it.
\<close>

theorem pieces_never_share_a_square_witness:
  "distinctCoords (pieces promotionBoard)
   \<and> isMoveDone (fst (movePiece promotionBoard (Position 1 0) (Position 0 0) ''Q''))
   \<and> distinctCoords (pieces (snd (movePiece promotionBoard (Position 1 0) (Position 0 0) ''Q'')))
   \<and> fst (loadFEN promotionBoard ''8/8/8/8/8/8/8/K6k'')
   \<and> distinctCoords (pieces (snd (loadFEN promotionBoard ''8/8/8/8/8/8/8/K6k'')))
   \<and> fst (gameLoadFEN newGame ''8/8/8/8/8/8/8/K6k w - - 0 1'')
   \<and> distinctCoords (pieces (board (snd (gameLoadFEN newGame ''8/8/8/8/8/8/8/K6k w - - 0 1''))))"
proof -
  let ?m = "movePiece promotionBoard (Position 1 0) (Position 0 0) ''Q''"
  let ?l = "loadFEN promotionBoard ''8/8/8/8/8/8/8/K6k''"
  let ?g = "gameLoadFEN newGame ''8/8/8/8/8/8/8/K6k w - - 0 1''"
  have d0: "distinctCoords (pieces promotionBoard)" by code_simp
  have m: "isMoveDone (fst ?m)" by code_simp
  then obtain r where mr: "?m = (MoveDone r, snd ?m)"
    by (cases "fst ?m") (auto simp: isMoveDone_def prod_eq_iff)
  have l: "fst ?l" by code_simp
  then have lr: "?l = (True, snd ?l)" by (simp add: prod_eq_iff)
  have g: "fst ?g" by code_simp
  then have gr: "?g = (True, snd ?g)" by (simp add: prod_eq_iff)
  from pieces_never_share_a_square[of promotionBoard "Position 1 0" "Position 0 0" "''Q''" r "snd ?m"
         promotionBoard "''8/8/8/8/8/8/8/K6k''" "snd ?l" newGame "''8/8/8/8/8/8/8/K6k w - - 0 1''" "snd ?g"]
       d0 mr lr gr
  have "distinctCoords (pieces (snd ?m))" "distinctCoords (pieces (snd ?l))"
       "distinctCoords (pieces (board (snd ?g)))"
    by blast+
  with d0 m l g show ?thesis by blast
qed

subsection \<open>Games played from the start\<close>

lemma valid_cases:
  assumes "isValid p"
  shows "row p \<in> {0, 1, 2, 3, 4, 5, 6, 7} \<and> col p \<in> {0, 1, 2, 3, 4, 5, 6, 7}"
proof -
  have "\<And>x::int. 0 \<le> x \<Longrightarrow> x < 8 \<Longrightarrow> x \<in> {0, 1, 2, 3, 4, 5, 6, 7}" by auto
  with assms show ?thesis unfolding isValid_def by blast
qed

lemma toLowerChar_files: "c \<in> set FILES \<Longrightarrow> toLowerChar c = c"
  by (auto simp: FILES_def toLowerChar_def)

lemma file_of_col:
  assumes "c \<in> {0, 1, 2, 3, 4, 5, 6, 7}"
  shows "\<exists>f. arrayAt FILES c = Some f \<and> f \<in> set FILES \<and> indexOf FILES f = c"
  using assms by (auto simp: arrayAt_def FILES_def)

lemma rank_of_row:
  assumes "r \<in> {0, 1, 2, 3, 4, 5, 6, 7}"
  shows "\<exists>k. arrayAt RANKS (7 - r) = Some k \<and> k \<in> set RANKS \<and> 8 - (indexOf RANKS k + 1) = r"
  using assms by (auto simp: arrayAt_def RANKS_def)

lemma toAlgebraic_valid:
  assumes "isValid p"
  shows "\<exists>f k. toAlgebraic p = [f, k] \<and> f \<in> set FILES \<and> k \<in> set RANKS
           \<and> indexOf FILES f = col p \<and> 8 - (indexOf RANKS k + 1) = row p"
proof -
  from valid_cases[OF assms] file_of_col[of "col p"] rank_of_row[of "row p"]
  obtain f k where "arrayAt FILES (col p) = Some f" "f \<in> set FILES" "indexOf FILES f = col p"
    "arrayAt RANKS (7 - row p) = Some k" "k \<in> set RANKS" "8 - (indexOf RANKS k + 1) = row p"
    by blast
  then show ?thesis by (auto simp: toAlgebraic_def)
qed

lemma fromAlgebraic_toAlgebraic: "isValid p \<Longrightarrow> fromAlgebraic (toAlgebraic p) = Some p"
proof -
  assume "isValid p"
  from toAlgebraic_valid[OF this] obtain f k where
    t: "toAlgebraic p = [f, k]" and f: "f \<in> set FILES" and k: "k \<in> set RANKS"
    and i: "indexOf FILES f = col p" "8 - (indexOf RANKS k + 1) = row p"
    by blast
  show ?thesis
    unfolding t fromAlgebraic_def using f k i toLowerChar_files[OF f]
    by (cases p) (simp add: Let_def)
qed

lemma pieceConstructors_kinds:
  "pieceConstructors s = PieceClass k \<Longrightarrow> k \<in> {Queen, Rook, Bishop, Knight}"
  by (auto simp: pieceConstructors_def split: if_splits)

lemma pieceConstructors_abbreviation:
  "k \<in> {Queen, Rook, Bishop, Knight} \<Longrightarrow>
     pieceConstructors (abbreviation_of (q\<lparr>kind := k\<rparr>)) = PieceClass k"
  by (auto simp: pieceConstructors_def abbreviation_of_def)

lemma movePiece_replay_promotion:
  assumes "movePiece b from to promo = (MoveDone r, b')"
  shows "movePiece b from to (promotionOfResult r) = (MoveDone r, b')"
proof -
  from assms obtain p where p: "getPieceAt b from = Some p" and v: "isValidMove p b to"
    by (auto simp: movePiece_def split: option.splits if_splits)
  show ?thesis
  proof (cases "isPromotionMove p to")
    case False
    with assms p v show ?thesis
      by (auto simp: movePiece_def Let_def case_prod_beta)
  next
    case True
    with assms p v obtain k where k: "pieceConstructors promo = PieceClass k"
      by (auto simp: movePiece_def Let_def case_prod_beta split: constructor_lookup.splits)
    from assms p v True k have pr: "r_promotedTo r = Some ((newPiece k (color p) to)\<lparr>hasMoved := True\<rparr>)"
      "r_isPromotion r"
      by (auto simp: movePiece_def Let_def case_prod_beta)
    have "promotionOfResult r = abbreviation_of ((newPiece k (color p) to)\<lparr>hasMoved := True\<rparr>)"
      by (simp add: promotionOfResult_def pr)
    also have "\<dots> = abbreviation_of ((newPiece k (color p) to)\<lparr>kind := k\<rparr>)"
      by (simp add: abbreviation_of_def newPiece_def)
    finally have "pieceConstructors (promotionOfResult r) = PieceClass k"
      using pieceConstructors_abbreviation[OF pieceConstructors_kinds[OF k]] by simp
    with assms p v True k show ?thesis
      by (auto simp: movePiece_def Let_def case_prod_beta)
  qed
qed

lemma movePiece_done_facts:
  assumes "movePiece b from to promo = (MoveDone r, b')"
  shows "\<exists>p. getPieceAt b from = Some p \<and> isValidMove p b to \<and> kind (r_piece r) = kind p"
  using assms
  by (auto simp: movePiece_def Let_def case_prod_beta moveTo_def
        split: option.splits if_splits constructor_lookup.splits)

lemma makeMove_done_cases:
  assumes "makeMove g from to promo = (MakeDone mv st, g')"
  shows "\<exists>fromPos toPos p result b'.
           resolveSquare from = Some fromPos \<and> resolveSquare to = Some toPos
           \<and> getPieceAt (board g) fromPos = Some p \<and> color p = currentTurn g
           \<and> movePiece (board g) fromPos toPos promo = (MoveDone result, b')
           \<and> \<not> isKingInCheck b' (currentTurn g)
           \<and> commitMove g p fromPos toPos result b' = (MakeDone mv st, g')"
  using assms
  by (auto simp: makeMove_def clone_id commitMove_fst
        split: option.splits prod.splits move_outcome.splits if_splits bool.splits)

lemma commitMove_fields:
  assumes "commitMove g p fromPos toPos result b' = (out, g')"
  shows "board g' = b'"
    and "currentTurn g' = (if currentTurn g = White then Black else White)"
    and "halfMoveClock g' = (if kind p = Pawn \<or> r_capturedPiece result \<noteq> None then Some 0
                             else increment (halfMoveClock g))"
    and "fullMoveNumber g' = (if currentTurn g = Black then increment (fullMoveNumber g)
                              else fullMoveNumber g)"
    and "\<exists>n. moveHistory g' = moveHistory g @
           [\<lparr>m_piece = r_piece result, m_from = toAlgebraic fromPos, m_to = toAlgebraic toPos,
             m_capturedPiece = r_capturedPiece result, m_isPromotion = r_isPromotion result,
             m_promotedTo = r_promotedTo result, m_isCastling = r_isCastling result,
             m_isEnPassant = r_isEnPassant result, m_notation = n\<rparr>]"
    and "positionHistory g' = positionHistory g @ [getPositionSignature b']"
  using assms
  by (auto simp: commitMove_def Let_def updateGameStatus_fields)

lemma allValid_updateFirstAt:
  "allValid ps \<Longrightarrow> isValid q \<Longrightarrow> allValid (updateFirstAt pos (moveTo q) ps)"
  by (induction ps) (auto simp: allValid_def moveTo_def)

lemma allValid_removeFirstAt: "allValid ps \<Longrightarrow> allValid (removeFirstAt pos ps)"
  by (induction ps) (auto simp: allValid_def)

lemma castlingStep_pieces:
  "pieces (snd (snd (castlingStep p from to b))) = pieces b
   \<or> (kind p = King \<and> \<bar>col to - col from\<bar> = 2
       \<and> pieces (snd (snd (castlingStep p from to b)))
           = updateFirstAt (Position (row from) (if col to > col from then 7 else 0))
               (moveTo (Position (row from) (if col to > col from then col to - 1 else col to + 1)))
               (pieces b))"
  by (simp add: castlingStep_def Let_def split: option.splits)

lemma castlingStep_valid:
  assumes "allValid (pieces b3)"
    and "kind p = King \<and> \<bar>col to - col from\<bar> = 2 \<longrightarrow>
           isValid (Position (row from) (if col to > col from then col to - 1 else col to + 1))"
  shows "allValid (pieces (snd (snd (castlingStep p from to b3))))"
  using castlingStep_pieces[of p "from" to b3] assms allValid_updateFirstAt[OF assms(1)]
  by metis

lemma captureStep_valid: "allValid (pieces b) \<Longrightarrow> allValid (pieces (snd (captureStep b sq)))"
  by (simp add: captureStep_def allValid_removeFirstAt split: option.splits)

lemma enPassantStep_valid: "allValid (pieces b) \<Longrightarrow> allValid (pieces (snd (enPassantStep p to b)))"
  by (simp add: enPassantStep_def captureStep_valid)

lemma movePiece_valid:
  assumes d: "allValid (pieces b)"
  shows "allValid (pieces (snd (movePiece b from to promo)))"
proof (cases "getPieceAt b from")
  case None
  then show ?thesis using d by (simp add: movePiece_def)
next
  case (Some p)
  show ?thesis
  proof (cases "isValidMove p b to")
    case False
    then show ?thesis using d Some by (simp add: movePiece_def)
  next
    case True
    then have vt: "isValid to" by (auto simp: isValidMove_def split: if_splits)
    have vf: "isValid from" using getPieceAt_SomeD[OF Some] d by (auto simp: allValid_def)
    define b1 where "b1 = snd (captureStep b to)"
    define b2 where "b2 = snd (enPassantStep p to b1)"
    define still where "still = (\<not> (fst (enPassantStep p to b1) \<noteq> None \<and> capturePositionOf p to = from))"
    have d2: "allValid (pieces b2)"
      unfolding b2_def b1_def by (intro enPassantStep_valid captureStep_valid d)
    define ps3 where "ps3 = (if still then removeFirstAt from (pieces b2) else pieces b2)"
    have d3: "allValid ps3"
      using d2 by (simp add: ps3_def allValid_removeFirstAt)
    define ps4 where "ps4 = (if still then updateFirstAt from (moveTo to) (pieces b2) else pieces b2)"
    have d4: "allValid ps4"
      using d2 vt by (simp add: ps4_def allValid_updateFirstAt)
    have c: "kind p = King \<and> \<bar>col to - col from\<bar> = 2 \<longrightarrow>
           isValid (Position (row from) (if col to > col from then col to - 1 else col to + 1))"
      using vt vf unfolding isValid_def by (cases "col to > col from") auto
    have d5: "allValid (pieces (snd (snd (castlingStep p from to (b2\<lparr>pieces := ps4\<rparr>)))))"
      by (rule castlingStep_valid) (use d4 c in simp_all)
    have eq: "pieces (snd (movePiece b from to promo)) =
        (if isPromotionMove p to then
           (case pieceConstructors promo of
              NotConstructible \<Rightarrow> pieces b2
            | ObjectClass \<Rightarrow> ps3
            | PieceClass k \<Rightarrow> ps3 @ [(newPiece k (color p) to)\<lparr>hasMoved := True\<rparr>])
         else pieces (snd (snd (castlingStep p from to (b2\<lparr>pieces := ps4\<rparr>)))))"
      by (auto simp add: movePiece_def Some True Let_def case_prod_beta b1_def b2_def still_def
            ps3_def ps4_def split: constructor_lookup.splits)
    have np: "\<And>k. allValid (ps3 @ [(newPiece k (color p) to)\<lparr>hasMoved := True\<rparr>])"
      using d3 vt by (simp add: allValid_def newPiece_def)
    show ?thesis
      unfolding eq using d2 d3 d5 np
      by (simp split: constructor_lookup.splits)
  qed
qed

lemma pawn_double_step:
  assumes "canMoveTo p b to" and "kind p = Pawn" and "\<bar>row to - row (position p)\<bar> = 2"
  shows "row to - row (position p) = (if color p = White then -2 else 2)"
proof -
  from assms(1,2) have
    "(col to - col (position p) = 0 \<and> row to - row (position p) = (if color p = White then -1 else 1))
     \<or> (col to - col (position p) = 0 \<and> row to - row (position p) = 2 * (if color p = White then -1 else 1))
     \<or> (\<bar>col to - col (position p)\<bar> = 1 \<and> row to - row (position p) = (if color p = White then -1 else 1))"
    unfolding canMoveTo_def by (simp add: Let_def split: if_splits)
  with assms(3) show ?thesis by (auto split: if_splits)
qed

lemma isValidMove_canMoveTo: "isValidMove p b to \<Longrightarrow> canMoveTo p b to \<and> isValid to"
  by (auto simp: isValidMove_def split: if_splits option.splits)

lemma castlingStep_ep: "enPassantTarget (snd (snd (castlingStep p from to b))) = enPassantTarget b"
  by (simp add: castlingStep_def Let_def split: option.splits)

lemma movePiece_ep:
  assumes "movePiece b from to promo = (MoveDone r, b')" and "getPieceAt b from = Some p"
  shows "enPassantTarget b' = enPassantTargetStep p from to"
  using assms
  by (auto simp: movePiece_def Let_def case_prod_beta castlingStep_ep
        split: if_splits constructor_lookup.splits)

lemma movePiece_epValid:
  assumes "allValid (pieces b)" and "movePiece b from to promo = (MoveDone r, b')"
  shows "epValid b'"
proof -
  from movePiece_done_facts[OF assms(2)] obtain p where
    p: "getPieceAt b from = Some p" and v: "isValidMove p b to" by blast
  have pf: "position p = from" and vf: "isValid from"
    using getPieceAt_SomeD[OF p] assms(1) by (auto simp: allValid_def)
  have vt: "isValid to" and cm: "canMoveTo p b to" using isValidMove_canMoveTo[OF v] by simp_all
  have ep: "enPassantTarget b' = enPassantTargetStep p from to"
    by (rule movePiece_ep[OF assms(2) p])
  show ?thesis
  proof (cases "kind p = Pawn \<and> \<bar>row to - row from\<bar> = 2")
    case False
    then show ?thesis by (auto simp add: epValid_def ep enPassantTargetStep_def)
  next
    case True
    with pawn_double_step[OF cm] pf
    have rd: "row to - row from = (if color p = White then -2 else 2)" by simp
    have "isValid (Position (if color p = White then row from - 1 else row from + 1) (col from))"
      using vf vt rd unfolding isValid_def by (cases "color p = White") simp_all
    with True show ?thesis by (simp add: epValid_def ep enPassantTargetStep_def)
  qed
qed

lemma replayMoves_step:
  assumes "fromAlgebraic (m_from m) = Some fromPos" and "fromAlgebraic (m_to m) = Some toPos"
    and "movePiece tempBoard fromPos toPos (replayPromotion m) = (MoveDone r, tb)"
  shows "replayMoves (m # ms) (tempBoard, turn, half, full) =
     replayMoves ms
       (tb, (if turn = White then Black else White),
        (if kind (m_piece m) = Pawn \<or> m_capturedPiece m \<noteq> None then Some 0 else increment half),
        (if (if turn = White then Black else White) = White then increment full else full))"
  using assms by (simp add: Let_def)

lemma replayMoves_snoc:
  assumes "replayMoves ms st = (True, st')"
  shows "replayMoves (ms @ [m]) st = replayMoves [m] st'"
  using assms
proof (induction ms st rule: replayMoves.induct)
  case (1 st)
  then show ?case by simp
next
  case (2 m' ms tempBoard turn half full)
  from "2.prems" obtain fromPos where f: "fromAlgebraic (m_from m') = Some fromPos"
    by (cases "fromAlgebraic (m_from m')") auto
  from "2.prems" f obtain toPos where t: "fromAlgebraic (m_to m') = Some toPos"
    by (cases "fromAlgebraic (m_to m')") auto
  obtain out tb where mp: "movePiece tempBoard fromPos toPos (replayPromotion m') = (out, tb)"
    by (cases "movePiece tempBoard fromPos toPos (replayPromotion m')") auto
  show ?case
  proof (cases out)
    case (MoveFailed e)
    from "2.IH"(1)[OF f t mp[symmetric, unfolded MoveFailed] refl refl refl refl]
      "2.prems" f t mp MoveFailed
    show ?thesis by (simp add: Let_def)
  next
    case (MoveDone r)
    from "2.IH"(2)[OF f t mp[symmetric, unfolded MoveDone] refl refl refl refl]
      "2.prems" f t mp MoveDone
    show ?thesis by (simp add: Let_def)
  next
    case MoveThrew
    with "2.prems" f t mp show ?thesis by simp
  next
    case MoveNonPiece
    with "2.prems" f t mp show ?thesis by simp
  qed
qed

lemma setup_valid: "allValid (pieces setupInitialPosition)"
  by (simp add: setupInitialPosition_def allValid_def newPiece_def isValid_def)

lemma gameInv_newGame: "gameInv newGame"
  by (simp add: gameInv_def newGame_def setup_valid setup_distinct epValid_def)
     (simp add: setupInitialPosition_def)

lemma increment_Some: "x \<noteq> None \<Longrightarrow> increment x \<noteq> None"
  by (cases x) (auto simp: increment_def)

lemma gameInv_makeMove:
  assumes inv: "gameInv g" and mk: "makeMove g from to promo = (MakeDone mv st, g')"
  shows "gameInv g'"
proof -
  from makeMove_done_cases[OF mk] obtain fromPos toPos p result b' where
    p: "getPieceAt (board g) fromPos = Some p"
    and mp: "movePiece (board g) fromPos toPos promo = (MoveDone result, b')"
    and cm: "commitMove g p fromPos toPos result b' = (MakeDone mv st, g')"
    by blast
  note f = commitMove_fields[OF cm]
  from inv have v: "allValid (pieces (board g))" and d: "distinctCoords (pieces (board g))"
    and h: "halfMoveClock g \<noteq> None" and fl: "fullMoveNumber g \<noteq> None"
    and rp: "replayMoves (moveHistory g) (setupInitialPosition, White, Some 0, Some 1)
          = (True, board g, currentTurn g, halfMoveClock g, fullMoveNumber g)"
    by (simp_all add: gameInv_def)
  have b'1: "b' = snd (movePiece (board g) fromPos toPos promo)" using mp by simp
  have v': "allValid (pieces b')" unfolding b'1 by (rule movePiece_valid[OF v])
  have d': "distinctCoords (pieces b')" unfolding b'1 by (rule movePiece_distinct[OF d])
  have e': "epValid b'" by (rule movePiece_epValid[OF v mp])
  from movePiece_done_facts[OF mp] p have vm: "isValidMove p (board g) toPos"
    and kp: "kind (r_piece result) = kind p" by auto
  have vf: "isValid fromPos" using getPieceAt_SomeD[OF p] v by (auto simp: allValid_def)
  have vt: "isValid toPos" using isValidMove_canMoveTo[OF vm] by simp
  from f(5) obtain n where hist: "moveHistory g' = moveHistory g @
           [\<lparr>m_piece = r_piece result, m_from = toAlgebraic fromPos, m_to = toAlgebraic toPos,
             m_capturedPiece = r_capturedPiece result, m_isPromotion = r_isPromotion result,
             m_promotedTo = r_promotedTo result, m_isCastling = r_isCastling result,
             m_isEnPassant = r_isEnPassant result, m_notation = n\<rparr>]" (is "_ = _ @ [?m]")
    by blast
  have rpm: "replayPromotion ?m = promotionOfResult result"
    by (simp add: replayPromotion_def promotionOfResult_def split: option.splits)
  have mp2: "movePiece (board g) fromPos toPos (replayPromotion ?m) = (MoveDone result, b')"
    unfolding rpm by (rule movePiece_replay_promotion[OF mp])
  have fa: "fromAlgebraic (m_from ?m) = Some fromPos" "fromAlgebraic (m_to ?m) = Some toPos"
    using fromAlgebraic_toAlgebraic[OF vf] fromAlgebraic_toAlgebraic[OF vt] by simp_all
  have "replayMoves (moveHistory g') (setupInitialPosition, White, Some 0, Some 1)
        = replayMoves [?m] (board g, currentTurn g, halfMoveClock g, fullMoveNumber g)"
    unfolding hist by (rule replayMoves_snoc[OF rp])
  also have "\<dots> = (True, b', (if currentTurn g = White then Black else White),
        (if kind (m_piece ?m) = Pawn \<or> m_capturedPiece ?m \<noteq> None then Some 0
         else increment (halfMoveClock g)),
        (if (if currentTurn g = White then Black else White) = White
         then increment (fullMoveNumber g) else fullMoveNumber g))"
    unfolding replayMoves_step[OF fa mp2] by simp
  also have "\<dots> = (True, board g', currentTurn g', halfMoveClock g', fullMoveNumber g')"
    using f(1-4) kp by (cases "currentTurn g") simp_all
  finally have rp': "replayMoves (moveHistory g') (setupInitialPosition, White, Some 0, Some 1)
        = (True, board g', currentTurn g', halfMoveClock g', fullMoveNumber g')" .
  have h': "halfMoveClock g' \<noteq> None" using f(3) h increment_Some by auto
  have fl': "fullMoveNumber g' \<noteq> None" using f(4) fl increment_Some by auto
  show ?thesis
    unfolding gameInv_def using v' d' e' h' fl' rp' f(1) by simp
qed

lemma gameInv_playMoves:
  "gameInv g \<Longrightarrow> playMoves g ms = Some g' \<Longrightarrow> gameInv g'"
proof (induction g ms rule: playMoves.induct)
  case (1 g)
  then show ?case by simp
next
  case (2 g "from" to promotionPiece ms)
  from "2.prems"(2) obtain mv st g1 where
    mk: "makeMove g from to promotionPiece = (MakeDone mv st, g1)" and pl: "playMoves g1 ms = Some g'"
    by (auto split: prod.splits make_outcome.splits)
  from "2.IH"[OF mk[symmetric] refl gameInv_makeMove[OF "2.prems"(1) mk] pl] show ?case .
qed

lemma playMoves_snoc:
  "playMoves g (ms @ [(from, to, promo)]) = Some g' \<Longrightarrow>
     \<exists>g0 mv st. playMoves g ms = Some g0 \<and> makeMove g0 from to promo = (MakeDone mv st, g')"
proof (induction g ms rule: playMoves.induct)
  case (1 g)
  then show ?case by (auto split: prod.splits make_outcome.splits)
next
  case (2 g f t p ms)
  from "2.prems" obtain mv st g1 where
    mk: "makeMove g f t p = (MakeDone mv st, g1)"
    and pl: "playMoves g1 (ms @ [(from, to, promo)]) = Some g'"
    by (auto split: prod.splits make_outcome.splits)
  from "2.IH"[OF mk[symmetric] refl pl] mk show ?case by simp
qed

lemma makeMove_core:
  assumes eq: "board g1 = board g0" "currentTurn g1 = currentTurn g0"
      "halfMoveClock g1 = halfMoveClock g0" "fullMoveNumber g1 = fullMoveNumber g0"
    and mk: "makeMove g0 from to promo = (MakeDone mv st, g)"
  shows "\<exists>mv' st' g2. makeMove g1 from to promo = (MakeDone mv' st', g2)
           \<and> board g2 = board g \<and> currentTurn g2 = currentTurn g
           \<and> halfMoveClock g2 = halfMoveClock g \<and> fullMoveNumber g2 = fullMoveNumber g"
proof -
  from makeMove_done_cases[OF mk] obtain fromPos toPos p result b' where
    r: "resolveSquare from = Some fromPos" "resolveSquare to = Some toPos"
    and p: "getPieceAt (board g0) fromPos = Some p" "color p = currentTurn g0"
    and mp: "movePiece (board g0) fromPos toPos promo = (MoveDone result, b')"
    and nc: "\<not> isKingInCheck b' (currentTurn g0)"
    and cm: "commitMove g0 p fromPos toPos result b' = (MakeDone mv st, g)"
    by blast
  have mk1: "makeMove g1 from to promo = commitMove g1 p fromPos toPos result b'"
    using r p mp nc by (simp add: makeMove_def eq clone_id)
  obtain out g2 where cm1: "commitMove g1 p fromPos toPos result b' = (out, g2)"
    by (cases "commitMove g1 p fromPos toPos result b'") auto
  from commitMove_fst[of g1 p fromPos toPos result b'] cm1
  obtain mv' st' where out: "out = MakeDone mv' st'" by (cases out) auto
  note f0 = commitMove_fields(1-4)[OF cm]
  note f1 = commitMove_fields(1-4)[OF cm1]
  show ?thesis
    using mk1 cm1 out f0 f1 eq by simp
qed

lemma getFEN_core:
  assumes "board g2 = board g" "currentTurn g2 = currentTurn g"
      "halfMoveClock g2 = halfMoveClock g" "fullMoveNumber g2 = fullMoveNumber g"
  shows "getFEN g2 = getFEN g"
  using assms by (simp add: getFEN_def)

lemma undoLastMove_after_makeMove:
  assumes inv: "gameInv g0" and mk: "makeMove g0 from to promo = (MakeDone mv st, g)"
  shows "\<exists>g1. undoLastMove g = (UndoTrue, g1) \<and> board g1 = board g0
           \<and> currentTurn g1 = currentTurn g0 \<and> halfMoveClock g1 = halfMoveClock g0
           \<and> fullMoveNumber g1 = fullMoveNumber g0"
proof -
  from makeMove_done_cases[OF mk] obtain fromPos toPos p result b' where
    cm: "commitMove g0 p fromPos toPos result b' = (MakeDone mv st, g)"
    by blast
  from commitMove_fields(5)[OF cm] obtain m where hist: "moveHistory g = moveHistory g0 @ [m]"
    by blast
  from inv have rp: "replayMoves (moveHistory g0) (setupInitialPosition, White, Some 0, Some 1)
          = (True, board g0, currentTurn g0, halfMoveClock g0, fullMoveNumber g0)"
    by (simp add: gameInv_def)
  show ?thesis
    by (simp add: undoLastMove_def hist Let_def rp updateGameStatus_fields)
qed

text \<open>
  Claim C8. For a game reached from the standard start by a sequence of successful moves,
  the last of which is the request (from, to, promotion): \<open>undoLastMove\<close> succeeds, the
  same request then succeeds again, and the FEN of the game it gives is the FEN the game
  had before the undo.
\<close>

theorem undo_then_replay_restores_FEN:
  assumes "playMoves newGame (ms @ [(from, to, promotionPiece)]) = Some g"
  shows "\<exists>g1 mv st g2. undoLastMove g = (UndoTrue, g1)
           \<and> makeMove g1 from to promotionPiece = (MakeDone mv st, g2)
           \<and> getFEN g2 = getFEN g"
proof -
  from playMoves_snoc[OF assms] obtain g0 mv0 st0 where
    pl: "playMoves newGame ms = Some g0"
    and mk: "makeMove g0 from to promotionPiece = (MakeDone mv0 st0, g)"
    by blast
  have inv: "gameInv g0" by (rule gameInv_playMoves[OF gameInv_newGame pl])
  from undoLastMove_after_makeMove[OF inv mk] obtain g1 where
    u: "undoLastMove g = (UndoTrue, g1)" and e: "board g1 = board g0"
    "currentTurn g1 = currentTurn g0" "halfMoveClock g1 = halfMoveClock g0"
    "fullMoveNumber g1 = fullMoveNumber g0"
    by blast
  from makeMove_core[OF e mk] obtain mv st g2 where
    m2: "makeMove g1 from to promotionPiece = (MakeDone mv st, g2)"
    and e2: "board g2 = board g" "currentTurn g2 = currentTurn g"
      "halfMoveClock g2 = halfMoveClock g" "fullMoveNumber g2 = fullMoveNumber g"
    by blast
  from u m2 getFEN_core[OF e2] show ?thesis by blast
qed

lemma first_move_plays:
  "playMoves newGame [(Algebraic ''e2'', Algebraic ''e4'', ''Q'')] \<noteq> None"
  by code_simp

text \<open>Claim C8 on the game after 1. e4.\<close>

theorem undo_then_replay_restores_FEN_witness:
  "\<exists>g. playMoves newGame ([] @ [(Algebraic ''e2'', Algebraic ''e4'', ''Q'')]) = Some g
       \<and> (\<exists>g1 mv st g2. undoLastMove g = (UndoTrue, g1)
             \<and> makeMove g1 (Algebraic ''e2'') (Algebraic ''e4'') ''Q'' = (MakeDone mv st, g2)
             \<and> getFEN g2 = getFEN g)"
proof -
  from first_move_plays obtain g where
    g: "playMoves newGame ([] @ [(Algebraic ''e2'', Algebraic ''e4'', ''Q'')]) = Some g"
    by auto
  from undo_then_replay_restores_FEN[OF g] g show ?thesis by blast
qed

subsection \<open>Round trip through FEN\<close>

lemma keyText_pieceKey: "keyText (pieceKey p) = symbol p # toAlgebraic (position p)"
  by (cases "kind p"; cases "color p")
     (simp_all add: pieceKey_def keyText_def symbol_def collationRank_def)

lemma map_sort_key: "map f (sort_key f xs) = sort (map f xs)"
  by (rule properties_for_sort[symmetric]) simp_all

lemma sort_mset_cong: "mset xs = mset ys \<Longrightarrow> sort xs = sort ys"
  by (metis sorted_list_of_multiset_mset)

lemma signature_keys:
  "getPositionSignature b =
     concat (map keyText (sort (map pieceKey (pieces b))))
     @ '';ep:'' @ (case enPassantTarget b of Some t \<Rightarrow> toAlgebraic t | None \<Rightarrow> ''-'')"
proof -
  have "map (\<lambda>p. symbol p # toAlgebraic (position p)) (sort_key pieceKey (pieces b))
        = map keyText (map pieceKey (sort_key pieceKey (pieces b)))"
    by (simp add: keyText_pieceKey)
  then show ?thesis by (simp only: getPositionSignature_def map_sort_key)
qed

lemma signature_cong:
  assumes "mset (map pieceKey (pieces b)) = mset (map pieceKey (pieces b'))"
    and "enPassantTarget b = enPassantTarget b'"
  shows "getPositionSignature b = getPositionSignature b'"
  unfolding signature_keys using sort_mset_cong[OF assms(1)] assms(2) by simp

lemma pieceKey_hasMoved [simp]: "pieceKey (p\<lparr>hasMoved := m\<rparr>) = pieceKey p"
  by (simp add: pieceKey_def symbol_def)

lemma keys_updateFirstWhere:
  "map pieceKey (updateFirstWhere P (\<lambda>p. p\<lparr>hasMoved := m\<rparr>) ps) = map pieceKey ps"
  by (induction ps) auto

lemma keys_updateFirstAt_flag:
  "map pieceKey (updateFirstAt pos (\<lambda>p. p\<lparr>hasMoved := m\<rparr>) ps) = map pieceKey ps"
  by (induction ps) auto

lemma keys_clearKingMoved: "map pieceKey (pieces (clearKingMoved c b)) = map pieceKey (pieces b)"
  by (simp add: clearKingMoved_def keys_updateFirstWhere)

lemma keys_clearRookMoved: "map pieceKey (pieces (clearRookMoved c k b)) = map pieceKey (pieces b)"
  by (simp add: clearRookMoved_def keys_updateFirstAt_flag split: option.splits)

lemma keys_applyCastlingField:
  "map pieceKey (pieces (applyCastlingField s b)) = map pieceKey (pieces b)"
proof -
  have "map pieceKey (map (\<lambda>p. if kind p = King \<or> kind p = Rook then p\<lparr>hasMoved := True\<rparr> else p) ps)
        = map pieceKey ps" for ps
    by (induction ps) auto
  then show ?thesis
    by (simp add: applyCastlingField_def Let_def keys_clearKingMoved keys_clearRookMoved)
qed

lemma digitChar_values:
  "digitChar 0 = CHR ''0''" "digitChar (Suc 0) = CHR ''1''" "digitChar 2 = CHR ''2''"
  "digitChar 3 = CHR ''3''" "digitChar 4 = CHR ''4''" "digitChar 5 = CHR ''5''"
  "digitChar 6 = CHR ''6''" "digitChar 7 = CHR ''7''" "digitChar 8 = CHR ''8''"
  "digitChar 9 = CHR ''9''"
  by code_simp+

lemma digitChar_isDigit: "d < 10 \<Longrightarrow> isDigit (digitChar d) \<and> plainChar (digitChar d)"
proof -
  assume "d < 10"
  then have "d \<in> {0, Suc 0, 2, 3, 4, 5, 6, 7, 8, 9}" by auto
  then show ?thesis
    by (auto simp: digitChar_values isDigit_def plainChar_def isWhiteSpace_def)
qed

lemma showNat_digits: "showNat n \<noteq> [] \<and> (\<forall>ch \<in> set (showNat n). isDigit ch \<and> plainChar ch)"
proof (induction n rule: showNat.induct)
  case (1 n)
  show ?case
  proof (cases "n < 10")
    case True
    then show ?thesis using digitChar_isDigit[of n] by (simp add: showNat.simps[of n])
  next
    case False
    with 1 digitChar_isDigit[of "n mod 10"] show ?thesis
      by (simp add: showNat.simps[of n])
  qed
qed

lemma showNat_values:
  "showNat (Suc 0) = ''1''" "showNat 2 = ''2''" "showNat 3 = ''3''" "showNat 4 = ''4''"
  "showNat 5 = ''5''" "showNat 6 = ''6''" "showNat 7 = ''7''" "showNat 8 = ''8''"
  by code_simp+

lemma showNat_run:
  assumes "1 \<le> e" and "e \<le> 8"
  shows "\<exists>ch. showNat e = [ch] \<and> isEmptyRun ch \<and> digitValue ch = int e"
proof -
  from assms have "e \<in> {Suc 0, 2, 3, 4, 5, 6, 7, 8}" by auto
  then show ?thesis
    by (auto simp: showNat_values isEmptyRun_def digitValue_def)
qed

lemma letter_kinds:
  "kindOfChar CHR ''P'' = Some Pawn"
  "kindOfChar CHR ''p'' = Some Pawn"
  "kindOfChar CHR ''N'' = Some Knight"
  "kindOfChar CHR ''n'' = Some Knight"
  "kindOfChar CHR ''B'' = Some Bishop"
  "kindOfChar CHR ''b'' = Some Bishop"
  "kindOfChar CHR ''R'' = Some Rook"
  "kindOfChar CHR ''r'' = Some Rook"
  "kindOfChar CHR ''Q'' = Some Queen"
  "kindOfChar CHR ''q'' = Some Queen"
  "kindOfChar CHR ''K'' = Some King"
  "kindOfChar CHR ''k'' = Some King"
  by code_simp+

lemma letter_colors:
  "colorOfChar CHR ''P'' = White"
  "colorOfChar CHR ''p'' = Black"
  "colorOfChar CHR ''N'' = White"
  "colorOfChar CHR ''n'' = Black"
  "colorOfChar CHR ''B'' = White"
  "colorOfChar CHR ''b'' = Black"
  "colorOfChar CHR ''R'' = White"
  "colorOfChar CHR ''r'' = Black"
  "colorOfChar CHR ''Q'' = White"
  "colorOfChar CHR ''q'' = Black"
  "colorOfChar CHR ''K'' = White"
  "colorOfChar CHR ''k'' = Black"
  by code_simp+

lemma letter_classes:
  "isPieceLetter CHR ''P''" "\<not> isEmptyRun CHR ''P''" "plainChar CHR ''P''"
  "isPieceLetter CHR ''p''" "\<not> isEmptyRun CHR ''p''" "plainChar CHR ''p''"
  "isPieceLetter CHR ''N''" "\<not> isEmptyRun CHR ''N''" "plainChar CHR ''N''"
  "isPieceLetter CHR ''n''" "\<not> isEmptyRun CHR ''n''" "plainChar CHR ''n''"
  "isPieceLetter CHR ''B''" "\<not> isEmptyRun CHR ''B''" "plainChar CHR ''B''"
  "isPieceLetter CHR ''b''" "\<not> isEmptyRun CHR ''b''" "plainChar CHR ''b''"
  "isPieceLetter CHR ''R''" "\<not> isEmptyRun CHR ''R''" "plainChar CHR ''R''"
  "isPieceLetter CHR ''r''" "\<not> isEmptyRun CHR ''r''" "plainChar CHR ''r''"
  "isPieceLetter CHR ''Q''" "\<not> isEmptyRun CHR ''Q''" "plainChar CHR ''Q''"
  "isPieceLetter CHR ''q''" "\<not> isEmptyRun CHR ''q''" "plainChar CHR ''q''"
  "isPieceLetter CHR ''K''" "\<not> isEmptyRun CHR ''K''" "plainChar CHR ''K''"
  "isPieceLetter CHR ''k''" "\<not> isEmptyRun CHR ''k''" "plainChar CHR ''k''"
  by code_simp+

lemma symbol_facts:
  "isPieceLetter (symbol p)" "\<not> isEmptyRun (symbol p)" "kindOfChar (symbol p) = Some (kind p)"
  "colorOfChar (symbol p) = color p" "plainChar (symbol p)"
  by (cases "kind p"; cases "color p";
      simp add: symbol_def letter_kinds letter_colors letter_classes)+

lemma loadRow_run:
  assumes "1 \<le> e" and "e \<le> 8"
  shows "loadRow r (showNat e @ rest) c ps = loadRow r rest (c + int e) ps"
proof -
  from showNat_run[OF assms] obtain ch where
    "showNat e = [ch]" "isEmptyRun ch" "digitValue ch = int e" by blast
  then show ?thesis by simp
qed

lemma loadRow_symbol:
  "loadRow r (symbol p # rest) c ps
     = loadRow r rest (c + 1) (ps @ [newPiece (kind p) (color p) (Position r c)])"
  by (simp add: symbol_facts)

lemma loadRow_toFENRow:
  assumes "cs = [c..7]" and "0 \<le> c0" and "c0 + int e = c" and "c \<le> 8"
  shows "loadRow r (toFENRow b r cs e) c0 ps = (True, 8, ps @ rowPieces b r cs)"
  using assms
proof (induction cs arbitrary: c c0 e ps)
  case Nil
  then have c8: "c = 8" by (cases "c \<le> 7") (auto simp: upto_rec1)
  show ?case
  proof (cases "e > 0")
    case False
    with Nil c8 show ?thesis by (simp add: rowPieces_def)
  next
    case True
    with Nil c8 have "1 \<le> e" "e \<le> 8" by auto
    from loadRow_run[OF this, of r "[]" c0 ps] True Nil c8 show ?thesis
      by (simp add: rowPieces_def)
  qed
next
  case (Cons x cs)
  from Cons.prems(1) have c7: "c \<le> 7" by (cases "c \<le> 7") auto
  with Cons.prems(1) have x: "x = c" and cs: "cs = [c + 1..7]" by (auto simp: upto_rec1)
  show ?case
  proof (cases "getPieceAt b (Position r c)")
    case None
    have "loadRow r (toFENRow b r cs (e + 1)) c0 ps = (True, 8, ps @ rowPieces b r cs)"
      by (rule Cons.IH[OF cs Cons.prems(2)]) (use Cons.prems(3) c7 in auto)
    with None x show ?thesis by (simp add: rowPieces_def)
  next
    case (Some p)
    let ?np = "newPiece (kind p) (color p) (Position r c)"
    have ih: "loadRow r (toFENRow b r cs 0) (c + 1) (ps @ [?np])
              = (True, 8, (ps @ [?np]) @ rowPieces b r cs)"
      by (rule Cons.IH[OF cs]) (use Cons.prems(2,3) c7 in auto)
    show ?thesis
    proof (cases "e > 0")
      case False
      with Cons.prems(3) have "c0 = c" by simp
      with Some x False ih show ?thesis
        by (simp add: rowPieces_def loadRow_symbol del: loadRow.simps)
    next
      case True
      with Cons.prems(2,3) c7 have e: "1 \<le> e" "e \<le> 8" by auto
      have "loadRow r (showNat e @ symbol p # toFENRow b r cs 0) c0 ps
            = loadRow r (symbol p # toFENRow b r cs 0) (c0 + int e) ps"
        by (rule loadRow_run[OF e])
      with Some x True ih Cons.prems(3) show ?thesis
        by (simp add: rowPieces_def loadRow_symbol del: loadRow.simps)
    qed
  qed
qed

lemma toFENRow_plain: "\<forall>ch \<in> set (toFENRow b r cs e). plainChar ch"
proof (induction cs arbitrary: e)
  case Nil
  then show ?case using showNat_digits[of e] by simp
next
  case (Cons c cs)
  then show ?case
    using showNat_digits[of e] symbol_facts(5)
    by (cases "getPieceAt b (Position r c)") auto
qed

lemma splitOn_nosep: "sep \<notin> set xs \<Longrightarrow> splitOn sep xs = [xs]"
  by (induction xs) auto

lemma splitOn_append: "sep \<notin> set xs \<Longrightarrow> splitOn sep (xs @ sep # ys) = xs # splitOn sep ys"
  by (induction xs) auto

lemma columns_upto: "[0, 1, 2, 3, 4, 5, 6, 7] = [0..7::int]"
  by (simp add: upto_rec1)

lemma loadRow_rowText:
  "loadRow r (rowText b r) 0 ps = (True, 8, ps @ rowPieces b r [0, 1, 2, 3, 4, 5, 6, 7])"
  unfolding rowText_def
  by (rule loadRow_toFENRow[where c = 0]) (simp_all add: upto_rec1)

lemma rowText_noslash: "CHR ''/'' \<notin> set (rowText b r)"
  using toFENRow_plain[of b r "[0, 1, 2, 3, 4, 5, 6, 7]" 0]
  unfolding rowText_def plainChar_def by blast

lemma rowText_plain: "\<forall>ch \<in> set (rowText b r). \<not> isWhiteSpace ch"
  using toFENRow_plain[of b r "[0, 1, 2, 3, 4, 5, 6, 7]" 0]
  unfolding rowText_def plainChar_def by blast

lemma toFEN_rowText:
  "toFEN b = concat (map (\<lambda>r. rowText b r @ (if r < 7 then ''/'' else [])) [0, 1, 2, 3, 4, 5, 6, 7])"
  unfolding toFEN_def rowText_def ..

lemma splitOn_rows:
  assumes "rs = [r..7]" and "r \<le> 7"
  shows "splitOn CHR ''/'' (concat (map (\<lambda>r. rowText b r @ (if r < 7 then ''/'' else [])) rs))
         = map (rowText b) rs"
  using assms
proof (induction rs arbitrary: r)
  case Nil
  then show ?case by (simp add: upto_rec1)
next
  case (Cons x rs)
  from Cons.prems have x: "x = r" and rs: "rs = [r + 1..7]" by (auto simp: upto_rec1)
  show ?case
  proof (cases "r < 7")
    case False
    with Cons.prems(2) rs have "rs = []" by simp
    with x False show ?thesis by (simp add: splitOn_nosep rowText_noslash)
  next
    case True
    then have "r + 1 \<le> 7" by simp
    from Cons.IH[OF rs this] x True show ?thesis
      by (simp add: splitOn_append rowText_noslash)
  qed
qed

lemma loadRows_rows:
  assumes "rs = [r..7]"
  shows "loadRows r (map (rowText b) rs) ps
         = (True, ps @ concat (map (\<lambda>r. rowPieces b r [0, 1, 2, 3, 4, 5, 6, 7]) rs))"
  using assms
proof (induction rs arbitrary: r ps)
  case Nil
  then show ?case by simp
next
  case (Cons x rs)
  from Cons.prems have r7: "r \<le> 7" by (cases "r \<le> 7") auto
  with Cons.prems have x: "x = r" and rs: "rs = [r + 1..7]" by (auto simp: upto_rec1)
  from Cons.IH[OF rs, of "ps @ rowPieces b r [0, 1, 2, 3, 4, 5, 6, 7]"] x
  show ?case by (simp add: loadRow_rowText)
qed

lemma loadFEN_toFEN:
  "loadFEN b0 (toFEN b) = (True, b0\<lparr>pieces := scanned b, capturedPieces := [], enPassantTarget := None\<rparr>)"
proof -
  have s: "splitOn CHR ''/'' (toFEN b) = map (rowText b) [0, 1, 2, 3, 4, 5, 6, 7]"
    unfolding toFEN_rowText by (rule splitOn_rows[of _ 0]) (simp_all add: upto_rec1)
  have l: "loadRows 0 (map (rowText b) [0, 1, 2, 3, 4, 5, 6, 7]) [] = (True, scanned b)"
    using loadRows_rows[of "[0, 1, 2, 3, 4, 5, 6, 7]" 0 b "[]"] by (simp add: scanned_def upto_rec1)
  show ?thesis
    unfolding loadFEN_def s Let_def l by simp
qed

lemma pieceKey_newPiece:
  "position p = sq \<Longrightarrow> pieceKey (newPiece (kind p) (color p) sq) = pieceKey p"
  by (simp add: pieceKey_def newPiece_def symbol_def)

lemma keys_rowPieces:
  "map pieceKey (rowPieces b r cs) = map pieceKey (foundAt b (map (Position r) cs))"
proof (induction cs)
  case Nil
  then show ?case by (simp add: rowPieces_def foundAt_def)
next
  case (Cons c cs)
  then show ?case
    by (cases "getPieceAt b (Position r c)")
       (auto simp: rowPieces_def foundAt_def pieceKey_newPiece dest: getPieceAt_SomeD)
qed

lemma foundAt_append: "foundAt b (xs @ ys) = foundAt b xs @ foundAt b ys"
  by (simp add: foundAt_def)

lemma keys_rows:
  "map pieceKey (concat (map (\<lambda>r. rowPieces b r cs) rs))
     = map pieceKey (foundAt b (concat (map (\<lambda>r. map (Position r) cs) rs)))"
  by (induction rs) (simp_all add: foundAt_append keys_rowPieces, simp add: foundAt_def)

lemma keys_scanned: "map pieceKey (scanned b) = map pieceKey (foundAt b allSquares)"
  unfolding scanned_def allSquares_def by (rule keys_rows)

lemma filter_position_absent:
  "sq \<notin> position ` set ps \<Longrightarrow> filter_mset (\<lambda>p. position p = sq) (mset ps) = {#}"
  by (induction ps) auto

lemma square_in_grid:
  "r \<in> set rs \<Longrightarrow> c \<in> set cs \<Longrightarrow> Position r c \<in> set (concat (map (\<lambda>r. map (Position r) cs) rs))"
  by (induction rs) auto

lemma mset_find_position:
  "distinct (map position ps) \<Longrightarrow>
     mset (case find (\<lambda>p. position p = sq) ps of Some p \<Rightarrow> [p] | None \<Rightarrow> [])
       = filter_mset (\<lambda>p. position p = sq) (mset ps)"
proof (induction ps)
  case Nil
  then show ?case by simp
next
  case (Cons a ps)
  show ?case
  proof (cases "position a = sq")
    case True
    with Cons.prems have "sq \<notin> position ` set ps" by auto
    then have "filter_mset (\<lambda>p. position p = sq) (mset ps) = {#}"
      by (rule filter_position_absent)
    with True show ?thesis by simp
  next
    case False
    with Cons show ?thesis by simp
  qed
qed

lemma filter_mset_disjoint_union:
  assumes "\<And>x. \<not> (P x \<and> Q x)"
  shows "filter_mset P M + filter_mset Q M = filter_mset (\<lambda>x. P x \<or> Q x) M"
  using assms by (induction M) auto

lemma mset_foundAt:
  assumes "distinct (map position (pieces b))" and "distinct sqs"
  shows "mset (foundAt b sqs) = filter_mset (\<lambda>p. position p \<in> set sqs) (mset (pieces b))"
  using assms(2)
proof (induction sqs)
  case Nil
  then show ?case by (simp add: foundAt_def)
next
  case (Cons sq sqs)
  have h: "mset (case getPieceAt b sq of Some p \<Rightarrow> [p] | None \<Rightarrow> [])
           = filter_mset (\<lambda>p. position p = sq) (mset (pieces b))"
    unfolding getPieceAt_find by (rule mset_find_position[OF assms(1)])
  have "mset (foundAt b (sq # sqs))
        = mset (case getPieceAt b sq of Some p \<Rightarrow> [p] | None \<Rightarrow> []) + mset (foundAt b sqs)"
    by (simp add: foundAt_def)
  also have "\<dots> = filter_mset (\<lambda>p. position p = sq) (mset (pieces b))
                 + filter_mset (\<lambda>p. position p \<in> set sqs) (mset (pieces b))"
    using Cons h by simp
  also have "\<dots> = filter_mset (\<lambda>p. position p = sq \<or> position p \<in> set sqs) (mset (pieces b))"
    by (rule filter_mset_disjoint_union) (use Cons.prems in auto)
  finally show ?case by simp
qed

lemma distinct_allSquares: "distinct allSquares"
  by code_simp

lemma valid_in_allSquares: "isValid sq \<Longrightarrow> sq \<in> set allSquares"
proof -
  assume "isValid sq"
  from valid_cases[OF this] have "row sq \<in> set [0, 1, 2, 3, 4, 5, 6, 7]" "col sq \<in> set [0, 1, 2, 3, 4, 5, 6, 7]"
    by simp_all
  then have "Position (row sq) (col sq) \<in> set allSquares"
    unfolding allSquares_def by (rule square_in_grid)
  then show ?thesis by simp
qed

lemma keys_scanned_mset:
  assumes "allValid (pieces b)" and "distinctCoords (pieces b)"
  shows "mset (map pieceKey (scanned b)) = mset (map pieceKey (pieces b))"
proof -
  have "filter_mset (\<lambda>p. position p \<in> set allSquares) (mset (pieces b)) = mset (pieces b)"
    using assms(1) valid_in_allSquares by (auto simp: allValid_def filter_mset_eq_conv)
  with mset_foundAt[OF assms(2)[unfolded distinctCoords_def] distinct_allSquares]
  have "mset (foundAt b allSquares) = mset (pieces b)" by simp
  then have "image_mset pieceKey (mset (foundAt b allSquares)) = image_mset pieceKey (mset (pieces b))"
    by simp
  then show ?thesis by (simp add: keys_scanned)
qed

lemma space_is_white: "isWhiteSpace CHR '' ''"
  by (simp add: isWhiteSpace_def)

lemma noSpace_no_blank: "noSpace s \<Longrightarrow> CHR '' '' \<notin> set s"
  using space_is_white by (auto simp: noSpace_def)

lemma noSpace_append: "noSpace (xs @ ys) = (noSpace xs \<and> noSpace ys)"
  by (auto simp: noSpace_def)

lemma noSpace_rowText: "noSpace (rowText b r)"
  using rowText_plain by (simp add: noSpace_def)

lemma noSpace_rows:
  "noSpace (concat (map (\<lambda>r. rowText b r @ (if r < 7 then ''/'' else [])) rs))"
proof (induction rs)
  case Nil
  then show ?case by (simp add: noSpace_def)
next
  case (Cons r rs)
  have "noSpace ''/''" by (simp add: noSpace_def isWhiteSpace_def)
  with Cons noSpace_rowText[of b r] show ?case by (auto simp: noSpace_def)
qed

lemma noSpace_toFEN: "noSpace (toFEN b)"
  unfolding toFEN_rowText by (rule noSpace_rows)

lemma toFEN_nonempty: "toFEN b \<noteq> []"
  unfolding toFEN_rowText by simp

lemma noSpace_castlingField: "noSpace (castlingField b)"
proof -
  have "set (castlingField b) \<subseteq> set ''KQkq-''"
    by (auto simp: castlingField_def Let_def split: if_splits)
  moreover have "noSpace ''KQkq-''" by (simp add: noSpace_def isWhiteSpace_def)
  ultimately show ?thesis unfolding noSpace_def by blast
qed

lemma noSpace_files_ranks:
  "f \<in> set FILES \<Longrightarrow> \<not> isWhiteSpace f" "k \<in> set RANKS \<Longrightarrow> \<not> isWhiteSpace k"
  by (auto simp: FILES_def RANKS_def isWhiteSpace_def)

lemma noSpace_toAlgebraic: "isValid t \<Longrightarrow> noSpace (toAlgebraic t) \<and> toAlgebraic t \<noteq> ''-''"
proof -
  assume "isValid t"
  from toAlgebraic_valid[OF this] obtain f k where
    "toAlgebraic t = [f, k]" "f \<in> set FILES" "k \<in> set RANKS" by blast
  then show ?thesis using noSpace_files_ranks by (simp add: noSpace_def)
qed

lemma digit_facts:
  "isDigit c \<Longrightarrow> \<not> isWhiteSpace c \<and> c \<noteq> CHR ''-'' \<and> c \<noteq> CHR ''+''"
  by (auto simp: isDigit_def isWhiteSpace_def)

lemma showNat_head: "\<exists>c cs. showNat n = c # cs \<and> isDigit c"
  using showNat_digits[of n] by (cases "showNat n") auto

lemma noSpace_showNat: "noSpace (showNat n)"
  using showNat_digits[of n] digit_facts by (auto simp: noSpace_def)

lemma noSpace_number: "noSpace (numberToString (Some n)) \<and> numberToString (Some n) \<noteq> []"
proof -
  have "\<not> isWhiteSpace CHR ''-''" by (simp add: isWhiteSpace_def)
  then show ?thesis
    using noSpace_showNat showNat_head[of "nat n"] showNat_head[of "nat (- n)"]
    by (auto simp: numberToString_def noSpace_def)
qed

lemma parseInt_digits: "isDigit c \<Longrightarrow> parseInt (c # cs) \<noteq> None"
  using digit_facts[of c] by (simp add: parseInt_def Let_def)

lemma parseInt_minus_digits: "isDigit c \<Longrightarrow> parseInt (CHR ''-'' # c # cs) \<noteq> None"
proof -
  assume "isDigit c"
  moreover have "\<not> isWhiteSpace CHR ''-''" by (simp add: isWhiteSpace_def)
  ultimately show ?thesis by (simp add: parseInt_def Let_def)
qed

lemma parseInt_number: "parseInt (numberToString (Some n)) \<noteq> None"
proof (cases "n < 0")
  case True
  from showNat_head[of "nat (- n)"] obtain c cs where "showNat (nat (- n)) = c # cs" "isDigit c"
    by blast
  with True parseInt_minus_digits show ?thesis by (simp add: numberToString_def)
next
  case False
  from showNat_head[of "nat n"] obtain c cs where "showNat (nat n) = c # cs" "isDigit c"
    by blast
  with False parseInt_digits show ?thesis by (simp add: numberToString_def)
qed

lemma trim_id:
  assumes "s \<noteq> []" and "\<not> isWhiteSpace (hd s)" and "\<not> isWhiteSpace (last s)"
  shows "trim s = s"
proof -
  have "dropWhile isWhiteSpace s = s" using assms(1,2) by (simp add: dropWhile_eq_self_iff)
  moreover have "dropWhile isWhiteSpace (rev s) = rev s"
    using assms(1,3) by (simp add: dropWhile_eq_self_iff hd_rev)
  ultimately show ?thesis by (simp add: trim_def)
qed

lemma six_fields:
  assumes "noSpace f0" "noSpace f1" "noSpace f2" "noSpace f3" "noSpace f4" "noSpace f5"
    and "f0 \<noteq> []" and "f5 \<noteq> []"
  shows "splitOn CHR '' ''
           (trim (f0 @ '' '' @ f1 @ '' '' @ f2 @ '' '' @ f3 @ '' '' @ f4 @ '' '' @ f5))
         = [f0, f1, f2, f3, f4, f5]"
proof -
  let ?s = "f0 @ '' '' @ f1 @ '' '' @ f2 @ '' '' @ f3 @ '' '' @ f4 @ '' '' @ f5"
  have "hd ?s = hd f0" using assms(7) by simp
  moreover have "last ?s = last f5" using assms(8) by simp
  ultimately have "trim ?s = ?s"
    using assms(1,6,7,8) by (intro trim_id) (auto simp: noSpace_def)
  then show ?thesis
    using assms(1-6) by (simp add: splitOn_append splitOn_nosep noSpace_no_blank)
qed

lemma gameLoadFEN_success:
  assumes "splitOn CHR '' '' (trim fen) = [p0, p1, p2, p3, p4, p5]"
    and "loadFEN (board h) p0 = (True, b0)"
    and "p3 = ''-'' \<or> fromAlgebraic p3 \<noteq> None"
    and "parseInt p4 \<noteq> None" and "parseInt p5 \<noteq> None"
  shows "\<exists>g'. gameLoadFEN h fen = (True, g')
           \<and> board g' = (applyCastlingField p2 b0)\<lparr>enPassantTarget :=
                            (if p3 \<noteq> ''-'' then fromAlgebraic p3 else None)\<rparr>"
  using assms
  by (auto simp: gameLoadFEN_def Let_def updateGameStatus_fields)

lemma getFEN_fields:
  "getFEN g =
     toFEN (board g) @ '' '' @ (if currentTurn g = White then ''w'' else ''b'') @ '' ''
     @ castlingField (board g) @ '' ''
     @ (case enPassantTarget (board g) of Some t \<Rightarrow> toAlgebraic t | None \<Rightarrow> ''-'') @ '' ''
     @ numberToString (halfMoveClock g) @ '' '' @ numberToString (fullMoveNumber g)"
  by (simp add: getFEN_def getEnPassantTarget_def)

lemma fen_round_trip_inv:
  assumes inv: "gameInv g"
  shows "\<exists>g'. gameLoadFEN h (getFEN g) = (True, g')
           \<and> getPositionSignature (board g') = getPositionSignature (board g)"
proof -
  let ?f0 = "toFEN (board g)"
  let ?f1 = "if currentTurn g = White then ''w'' else ''b''"
  let ?f2 = "castlingField (board g)"
  let ?f3 = "case enPassantTarget (board g) of Some t \<Rightarrow> toAlgebraic t | None \<Rightarrow> ''-''"
  let ?f4 = "numberToString (halfMoveClock g)"
  let ?f5 = "numberToString (fullMoveNumber g)"
  from inv have v: "allValid (pieces (board g))" and d: "distinctCoords (pieces (board g))"
    and e: "epValid (board g)" and hn: "halfMoveClock g \<noteq> None" and fn: "fullMoveNumber g \<noteq> None"
    by (simp_all add: gameInv_def)
  from hn obtain hv where hv: "halfMoveClock g = Some hv" by auto
  from fn obtain fv where fv: "fullMoveNumber g = Some fv" by auto
  have n1: "noSpace ?f1" by (simp add: noSpace_def isWhiteSpace_def)
  have n3: "noSpace ?f3"
    using e noSpace_toAlgebraic
    by (cases "enPassantTarget (board g)") (auto simp: epValid_def noSpace_def isWhiteSpace_def)
  have ep: "(?f3 = ''-'' \<or> fromAlgebraic ?f3 \<noteq> None)
            \<and> (if ?f3 \<noteq> ''-'' then fromAlgebraic ?f3 else None) = enPassantTarget (board g)"
    using e noSpace_toAlgebraic fromAlgebraic_toAlgebraic
    by (cases "enPassantTarget (board g)") (auto simp: epValid_def)
  have sp: "splitOn CHR '' '' (trim (getFEN g)) = [?f0, ?f1, ?f2, ?f3, ?f4, ?f5]"
    unfolding getFEN_fields
    by (rule six_fields)
       (use noSpace_toFEN n1 noSpace_castlingField n3 noSpace_number toFEN_nonempty hv fv in auto)
  let ?b0 = "(board h)\<lparr>pieces := scanned (board g), capturedPieces := [], enPassantTarget := None\<rparr>"
  have lf: "loadFEN (board h) ?f0 = (True, ?b0)" by (rule loadFEN_toFEN)
  have p4: "parseInt ?f4 \<noteq> None" "parseInt ?f5 \<noteq> None"
    using parseInt_number hv fv by simp_all
  from gameLoadFEN_success[OF sp lf conjunct1[OF ep] p4] obtain g' where
    g': "gameLoadFEN h (getFEN g) = (True, g')"
    and b': "board g' = (applyCastlingField ?f2 ?b0)\<lparr>enPassantTarget :=
                            (if ?f3 \<noteq> ''-'' then fromAlgebraic ?f3 else None)\<rparr>"
    by blast
  have k: "mset (map pieceKey (pieces (board g'))) = mset (map pieceKey (pieces (board g)))"
    unfolding b' using keys_applyCastlingField[of ?f2 ?b0] keys_scanned_mset[OF v d] by simp
  have e': "enPassantTarget (board g') = enPassantTarget (board g)"
    unfolding b' using conjunct2[OF ep] by simp
  from g' signature_cong[OF k e'] show ?thesis by blast
qed

text \<open>
  Claim C7. For every game reached from the standard start by successful moves,
  \<open>Game.loadFEN\<close> (on any game) of the text that \<open>getFEN\<close> gives for it succeeds, and the
  position signature of the board it leaves is the position signature of the board of the
  game.
\<close>

theorem fen_round_trip_keeps_signature:
  assumes "playMoves newGame ms = Some g"
  shows "\<exists>g'. gameLoadFEN h (getFEN g) = (True, g')
           \<and> getPositionSignature (board g') = getPositionSignature (board g)"
  by (rule fen_round_trip_inv[OF gameInv_playMoves[OF gameInv_newGame assms]])

text \<open>Claim C7 on the game after 1. e4, loaded into a new game.\<close>

theorem fen_round_trip_keeps_signature_witness:
  "\<exists>g. playMoves newGame [(Algebraic ''e2'', Algebraic ''e4'', ''Q'')] = Some g
       \<and> (\<exists>g'. gameLoadFEN newGame (getFEN g) = (True, g')
             \<and> getPositionSignature (board g') = getPositionSignature (board g))"
proof -
  from first_move_plays obtain g where
    g: "playMoves newGame [(Algebraic ''e2'', Algebraic ''e4'', ''Q'')] = Some g"
    by auto
  from fen_round_trip_keeps_signature[OF g, of newGame] g show ?thesis by blast
qed

end
